theory Spec2Isabelle
  imports Complex_Main "HOL-Library.Word"
begin

unbundle bit_operations_syntax

chapter \<open>RITCH: decoding ITCH message frames into columns\<close>

text \<open>
  A shallow embedding of \<^verbatim>\<open>src/MessageTypes.cpp\<close> and \<^verbatim>\<open>src/getMessages.cpp\<close>.
  The C++ classes become records, the \<^verbatim>\<open>std::vector\<close> columns become lists
  (\<^verbatim>\<open>push_back\<close> appends at the end), \<^verbatim>\<open>unsigned int\<close> and
  \<^verbatim>\<open>unsigned long long\<close> become 32-bit and 64-bit words, and a member function
  that mutates its object takes the object and returns the updated one.
\<close>

section \<open>Bytes, buffers and characters\<close>

type_synonym byte = "8 word"

text \<open>
  An \<^verbatim>\<open>unsigned char* buf\<close> points into the read buffer of the loader: \<open>buf i\<close> is
  the byte \<^verbatim>\<open>buf[i]\<close>. The decoders never write through the pointer.
\<close>

type_synonym buffer = "nat \<Rightarrow> byte"

text \<open>Pointer arithmetic: \<open>offs buf k\<close> is \<^verbatim>\<open>&buf[k]\<close>.\<close>

definition offs :: "buffer \<Rightarrow> nat \<Rightarrow> buffer" where
  "offs buf k = (\<lambda>i. buf (k + i))"

text \<open>A character literal such as \<^verbatim>\<open>'B'\<close>, as the byte it is compared with.\<close>

definition chr :: "char \<Rightarrow> byte" where
  "chr c = of_char c"

text \<open>
  A buffer holding the given bytes (followed by zero bytes), to write down concrete
  frames.
\<close>

definition bytes_at :: "byte list \<Rightarrow> buffer" where
  "bytes_at xs = (\<lambda>i. if i < length xs then xs ! i else 0)"

section \<open>Big-endian field extraction\<close>

text \<open>
  \<^verbatim>\<open>*reinterpret_cast<uintN_t*>(&buf[0])\<close> reads N/8 bytes in the byte order of the
  host. The package is built for little-endian hosts (x86-64, arm64): the byte at the
  lowest address is the least significant one.
\<close>

definition load16 :: "buffer \<Rightarrow> 16 word" where
  "load16 buf = ucast (buf 0) OR push_bit 8 (ucast (buf 1))"

definition load32 :: "buffer \<Rightarrow> 32 word" where
  "load32 buf = ucast (buf 0) OR push_bit 8 (ucast (buf 1)) OR push_bit 16 (ucast (buf 2))
     OR push_bit 24 (ucast (buf 3))"

definition load64 :: "buffer \<Rightarrow> 64 word" where
  "load64 buf = ucast (buf 0) OR push_bit 8 (ucast (buf 1)) OR push_bit 16 (ucast (buf 2))
     OR push_bit 24 (ucast (buf 3)) OR push_bit 32 (ucast (buf 4)) OR push_bit 40 (ucast (buf 5))
     OR push_bit 48 (ucast (buf 6)) OR push_bit 56 (ucast (buf 7))"

text \<open>
  The compiler builtins \<^verbatim>\<open>__builtin_bswap16/32/64\<close> return their argument with the
  order of its bytes reversed.
\<close>

definition bswap16 :: "16 word \<Rightarrow> 16 word" where
  "bswap16 x = push_bit 8 (x AND 0xFF) OR (drop_bit 8 x AND 0xFF)"

definition bswap32 :: "32 word \<Rightarrow> 32 word" where
  "bswap32 x = push_bit 24 (x AND 0xFF) OR push_bit 8 (x AND 0xFF00)
     OR (drop_bit 8 x AND 0xFF00) OR (drop_bit 24 x AND 0xFF)"

definition bswap64 :: "64 word \<Rightarrow> 64 word" where
  "bswap64 x = push_bit 56 (x AND 0xFF) OR push_bit 40 (x AND 0xFF00)
     OR push_bit 24 (x AND 0xFF0000) OR push_bit 8 (x AND 0xFF000000)
     OR (drop_bit 8 x AND 0xFF000000) OR (drop_bit 24 x AND 0xFF0000)
     OR (drop_bit 40 x AND 0xFF00) OR (drop_bit 56 x AND 0xFF)"

text \<open>
  \<^verbatim>\<open>get2bytes\<close> returns \<^verbatim>\<open>unsigned int\<close>: the swapped 16-bit value is widened.
\<close>

definition get2bytes :: "buffer \<Rightarrow> 32 word" where
  "get2bytes buf = ucast (bswap16 (load16 buf))"

definition get4bytes :: "buffer \<Rightarrow> 32 word" where
  "get4bytes buf = bswap32 (load32 buf)"

text \<open>
  \<^verbatim>\<open>get6bytes\<close> reads eight bytes, swaps them, masks the low 16 bits away and
  shifts right by 16.
\<close>

definition get6bytes :: "buffer \<Rightarrow> 64 word" where
  "get6bytes buf = drop_bit 16 (bswap64 (load64 buf) AND 0xFFFFFFFFFFFF0000)"

definition get8bytes :: "buffer \<Rightarrow> 64 word" where
  "get8bytes buf = bswap64 (load64 buf)"

section \<open>Doubles\<close>

text \<open>
  A finite \<^verbatim>\<open>double\<close> is modelled by the rational number it denotes. An arithmetic
  operation of IEEE 754 binary64 returns the exact result rounded to the nearest value
  with a 53-bit significand, ties to the even significand. Overflow to infinity is not
  modelled: the only operation of the decoders divides a 32-bit integer by 10000.
\<close>

type_synonym double = rat

fun bitlength :: "nat \<Rightarrow> nat" where
  "bitlength n = (if n = 0 then 0 else Suc (bitlength (n div 2)))"

declare bitlength.simps [simp del]

definition pow2 :: "int \<Rightarrow> rat" where
  "pow2 e = (if 0 \<le> e then 2 ^ nat e else 1 / 2 ^ nat (- e))"

text \<open>The binary exponent of a positive rational: \<open>pow2 (expo q) \<le> q < pow2 (expo q + 1)\<close>.\<close>

definition expo :: "rat \<Rightarrow> int" where
  "expo q = (if 1 \<le> q then int (bitlength (nat \<lfloor>q\<rfloor>)) - 1
             else - int (bitlength (nat (\<lceil>1 / q\<rceil> - 1))))"

definition round_even :: "rat \<Rightarrow> int" where
  "round_even q = (let f = \<lfloor>q\<rfloor>; r = q - of_int f in
      if r < 1 / 2 then f else if 1 / 2 < r then f + 1 else if even f then f else f + 1)"

text \<open>
  Rounding to binary64: the unit in the last place is \<open>2\<close> to the exponent minus 52,
  and the exponent is at least -1022 (below that the values are subnormal).
\<close>

definition round_double :: "rat \<Rightarrow> double" where
  "round_double q = (if q = 0 then 0 else
     let ulp = pow2 (max (expo \<bar>q\<bar>) (- 1022) - 52)
     in sgn q * of_int (round_even (\<bar>q\<bar> / ulp)) * ulp)"

text \<open>The conversion \<^verbatim>\<open>(double) x\<close> of an \<^verbatim>\<open>unsigned int\<close> is exact.\<close>

definition double_of_uint :: "32 word \<Rightarrow> double" where
  "double_of_uint x = of_nat (unat x)"

definition double_div :: "double \<Rightarrow> double \<Rightarrow> double" where
  "double_div a b = round_double (a / b)"

section \<open>The base class MessageType\<close>

text \<open>
  The members of the base class that the functions of \<^verbatim>\<open>MessageTypes.cpp\<close> use. The
  class declaration (\<^verbatim>\<open>MessageTypes.h\<close>) is not part of the sources at hand; the
  counters are \<^verbatim>\<open>unsigned long long\<close> as in \<^verbatim>\<open>setBoundaries\<close>, \<open>validTypes\<close> is
  iterated as \<^verbatim>\<open>unsigned char\<close> and \<open>typePositions\<close> as \<^verbatim>\<open>int\<close>.
\<close>

record MessageType =
  messageCount :: "64 word"
  startMsgCount :: "64 word"
  endMsgCount :: "64 word"
  validTypes :: "byte list"
  typePositions :: "int list"

text \<open>
  \<^verbatim>\<open>count[typePos]\<close> on a \<^verbatim>\<open>std::vector\<close> is defined only inside the vector:
  \<open>None\<close> stands for an access outside of it.
\<close>

definition vec_at :: "'a list \<Rightarrow> int \<Rightarrow> 'a option" where
  "vec_at xs i = (if 0 \<le> i \<and> i < int (length xs) then Some (xs ! nat i) else None)"

fun countValidMessages_loop :: "64 word list \<Rightarrow> int list \<Rightarrow> 64 word \<Rightarrow> 64 word option" where
  "countValidMessages_loop count [] tot = Some tot"
| "countValidMessages_loop count (typePos # rest) tot =
     (case vec_at count typePos of
        None \<Rightarrow> None
      | Some c \<Rightarrow> countValidMessages_loop count rest (tot + c))"

definition countValidMessages ::
  "'a MessageType_scheme \<Rightarrow> 64 word list \<Rightarrow> 64 word option" where
  "countValidMessages msg count = countValidMessages_loop count (typePositions msg) 0"

definition setBoundaries ::
  "64 word \<Rightarrow> 64 word \<Rightarrow> 'a MessageType_scheme \<Rightarrow> 'a MessageType_scheme" where
  "setBoundaries startMsgCount' endMsgCount' msg =
     msg\<lparr>startMsgCount := startMsgCount', endMsgCount := endMsgCount'\<rparr>"

text \<open>
  The loop \<^verbatim>\<open>for (unsigned char type : validTypes) rightMessage = rightMessage || buf[0] == type;\<close>
  that opens every \<^verbatim>\<open>loadMessages\<close>.
\<close>

definition rightMessage :: "byte list \<Rightarrow> buffer \<Rightarrow> bool" where
  "rightMessage valid buf = foldl (\<lambda>r t. r \<or> buf 0 = t) False valid"

text \<open>
  The loop \<^verbatim>\<open>for (i = 0; i < n; ++i) if (buf[k + i] != white) s += buf[k + i];\<close>
  that builds the stock name (\<open>n = 8\<close>) and the MPID (\<open>n = 4\<close>), with
  \<^verbatim>\<open>white = ' '\<close>. A \<^verbatim>\<open>std::string\<close> is the list of its bytes.
\<close>

definition white :: byte where
  "white = chr CHR '' ''"

definition read_string :: "buffer \<Rightarrow> nat \<Rightarrow> nat \<Rightarrow> byte list" where
  "read_string buf k n =
     foldl (\<lambda>s i. if buf (k + i) \<noteq> white then s @ [buf (k + i)] else s) [] [0..<n]"

section \<open>Orders\<close>

text \<open>
  The columns of the class \<^verbatim>\<open>Orders\<close>, in the order of \<^verbatim>\<open>Orders::getDF\<close>. The
  element type of a column is the type of the values that \<^verbatim>\<open>loadMessages\<close> pushes.
\<close>

record Orders = MessageType +
  type_O :: "byte list"
  locateCode_O :: "32 word list"
  trackingNumber_O :: "32 word list"
  timestamp_O :: "64 word list"
  orderRef_O :: "64 word list"
  buy_O :: "bool list"
  shares_O :: "32 word list"
  stock_O :: "byte list list"
  price_O :: "double list"
  mpid_O :: "byte list list"

text \<open>
  \<^verbatim>\<open>Orders::loadMessages\<close> returns its \<^verbatim>\<open>bool\<close> together with the updated
  object.
\<close>

definition loadMessages_O :: "buffer \<Rightarrow> Orders \<Rightarrow> bool \<times> Orders" where
  "loadMessages_O buf s =
     (if \<not> rightMessage (validTypes s) buf then (True, s)
      else if messageCount s < startMsgCount s
        then (True, s\<lparr>messageCount := messageCount s + 1\<rparr>)
      else if messageCount s > endMsgCount s then (False, s)
      else (True, s\<lparr>
        type_O := type_O s @ [buf 0],
        locateCode_O := locateCode_O s @ [get2bytes (offs buf 1)],
        trackingNumber_O := trackingNumber_O s @ [get2bytes (offs buf 3)],
        timestamp_O := timestamp_O s @ [get6bytes (offs buf 5)],
        orderRef_O := orderRef_O s @ [get8bytes (offs buf 11)],
        buy_O := buy_O s @ [buf 19 = chr CHR ''B''],
        shares_O := shares_O s @ [get4bytes (offs buf 20)],
        stock_O := stock_O s @ [read_string buf 24 8],
        price_O := price_O s @ [double_div (double_of_uint (get4bytes (offs buf 32))) 10000],
        mpid_O := mpid_O s @ [if buf 0 = chr CHR ''F'' then read_string buf 36 4 else []],
        messageCount := messageCount s + 1\<rparr>))"

section \<open>Trades\<close>

record Trades = MessageType +
  type_T :: "byte list"
  locateCode_T :: "32 word list"
  trackingNumber_T :: "32 word list"
  timestamp_T :: "64 word list"
  orderRef_T :: "64 word list"
  buy_T :: "bool list"
  shares_T :: "32 word list"
  stock_T :: "byte list list"
  price_T :: "double list"
  matchNumber_T :: "64 word list"
  crossType_T :: "byte list"

text \<open>
  The \<^verbatim>\<open>switch (buf[0])\<close> of \<^verbatim>\<open>Trades::loadMessages\<close>. Its \<^verbatim>\<open>default\<close> branch
  prints a line and pushes nothing.
\<close>

definition switch_T :: "buffer \<Rightarrow> Trades \<Rightarrow> Trades" where
  "switch_T buf s =
     (if buf 0 = chr CHR ''P'' then s\<lparr>
        orderRef_T := orderRef_T s @ [get8bytes (offs buf 11)],
        buy_T := buy_T s @ [buf 19 = chr CHR ''B''],
        shares_T := shares_T s @ [get4bytes (offs buf 20)],
        stock_T := stock_T s @ [read_string buf 24 8],
        price_T := price_T s @ [double_div (double_of_uint (get4bytes (offs buf 32))) 10000],
        matchNumber_T := matchNumber_T s @ [get8bytes (offs buf 36)],
        crossType_T := crossType_T s @ [chr CHR '' '']\<rparr>
      else if buf 0 = chr CHR ''Q'' then s\<lparr>
        shares_T := shares_T s @ [get4bytes (offs buf 11)],
        stock_T := stock_T s @ [read_string buf 19 8],
        price_T := price_T s @ [double_div (double_of_uint (get4bytes (offs buf 27))) 10000],
        matchNumber_T := matchNumber_T s @ [get8bytes (offs buf 31)],
        crossType_T := crossType_T s @ [buf 39],
        orderRef_T := orderRef_T s @ [0],
        buy_T := buy_T s @ [False]\<rparr>
      else if buf 0 = chr CHR ''B'' then s\<lparr>
        matchNumber_T := matchNumber_T s @ [get8bytes (offs buf 11)],
        orderRef_T := orderRef_T s @ [0],
        buy_T := buy_T s @ [False],
        shares_T := shares_T s @ [0],
        stock_T := stock_T s @ [[]],
        price_T := price_T s @ [0],
        crossType_T := crossType_T s @ [chr CHR '' '']\<rparr>
      else s)"

definition loadMessages_T :: "buffer \<Rightarrow> Trades \<Rightarrow> bool \<times> Trades" where
  "loadMessages_T buf s =
     (if \<not> rightMessage (validTypes s) buf then (True, s)
      else if messageCount s < startMsgCount s
        then (True, s\<lparr>messageCount := messageCount s + 1\<rparr>)
      else if messageCount s > endMsgCount s then (False, s)
      else
        let s1 = s\<lparr>
              type_T := type_T s @ [buf 0],
              locateCode_T := locateCode_T s @ [get2bytes (offs buf 1)],
              trackingNumber_T := trackingNumber_T s @ [get2bytes (offs buf 3)],
              timestamp_T := timestamp_T s @ [get6bytes (offs buf 5)]\<rparr>;
            s2 = switch_T buf s1
        in (True, s2\<lparr>messageCount := messageCount s2 + 1\<rparr>))"

section \<open>Modifications\<close>

text \<open>
  The values pushed onto the column \<open>printable\<close> have three C++ types: the
  \<^verbatim>\<open>char\<close> literal \<^verbatim>\<open>'N'\<close>, the \<^verbatim>\<open>unsigned char\<close> \<^verbatim>\<open>buf[31]\<close> and the
  \<^verbatim>\<open>bool\<close> \<^verbatim>\<open>false\<close>. The element type of the column is declared in
  \<^verbatim>\<open>MessageTypes.h\<close>; the model keeps every pushed value with its type.
  \<open>flag_as_char\<close> and \<open>flag_as_bool\<close> are the conversions of C++ to a column of
  characters and to a column of booleans.
\<close>

datatype flag_value = CharValue byte | BoolValue bool

fun flag_as_char :: "flag_value \<Rightarrow> byte" where
  "flag_as_char (CharValue c) = c"
| "flag_as_char (BoolValue b) = (if b then 1 else 0)"

fun flag_as_bool :: "flag_value \<Rightarrow> bool" where
  "flag_as_bool (CharValue c) = (c \<noteq> 0)"
| "flag_as_bool (BoolValue b) = b"

record Modifications = MessageType +
  type_M :: "byte list"
  locateCode_M :: "32 word list"
  trackingNumber_M :: "32 word list"
  timestamp_M :: "64 word list"
  orderRef_M :: "64 word list"
  shares_M :: "32 word list"
  matchNumber_M :: "64 word list"
  printable_M :: "flag_value list"
  price_M :: "double list"
  newOrderRef_M :: "64 word list"

text \<open>
  The \<^verbatim>\<open>switch (buf[0])\<close> of \<^verbatim>\<open>Modifications::loadMessages\<close>. Its \<^verbatim>\<open>default\<close>
  branch prints a line and pushes nothing.
\<close>

definition switch_M :: "buffer \<Rightarrow> Modifications \<Rightarrow> Modifications" where
  "switch_M buf s =
     (if buf 0 = chr CHR ''E'' then s\<lparr>
        shares_M := shares_M s @ [get4bytes (offs buf 19)],
        matchNumber_M := matchNumber_M s @ [get8bytes (offs buf 23)],
        printable_M := printable_M s @ [CharValue (chr CHR ''N'')],
        price_M := price_M s @ [0],
        newOrderRef_M := newOrderRef_M s @ [0]\<rparr>
      else if buf 0 = chr CHR ''C'' then s\<lparr>
        shares_M := shares_M s @ [get4bytes (offs buf 19)],
        matchNumber_M := matchNumber_M s @ [get8bytes (offs buf 23)],
        printable_M := printable_M s @ [CharValue (buf 31)],
        price_M := price_M s @ [double_div (double_of_uint (get4bytes (offs buf 32))) 10000],
        newOrderRef_M := newOrderRef_M s @ [0]\<rparr>
      else if buf 0 = chr CHR ''X'' then s\<lparr>
        shares_M := shares_M s @ [get4bytes (offs buf 19)],
        matchNumber_M := matchNumber_M s @ [0],
        printable_M := printable_M s @ [BoolValue False],
        price_M := price_M s @ [0],
        newOrderRef_M := newOrderRef_M s @ [0]\<rparr>
      else if buf 0 = chr CHR ''D'' then s\<lparr>
        shares_M := shares_M s @ [0],
        matchNumber_M := matchNumber_M s @ [0],
        printable_M := printable_M s @ [BoolValue False],
        price_M := price_M s @ [0],
        newOrderRef_M := newOrderRef_M s @ [0]\<rparr>
      else if buf 0 = chr CHR ''U'' then s\<lparr>
        newOrderRef_M := newOrderRef_M s @ [get8bytes (offs buf 19)],
        shares_M := shares_M s @ [get4bytes (offs buf 27)],
        price_M := price_M s @ [double_div (double_of_uint (get4bytes (offs buf 31))) 10000],
        matchNumber_M := matchNumber_M s @ [0],
        printable_M := printable_M s @ [BoolValue False]\<rparr>
      else s)"

definition loadMessages_M :: "buffer \<Rightarrow> Modifications \<Rightarrow> bool \<times> Modifications" where
  "loadMessages_M buf s =
     (if \<not> rightMessage (validTypes s) buf then (True, s)
      else if messageCount s < startMsgCount s
        then (True, s\<lparr>messageCount := messageCount s + 1\<rparr>)
      else if messageCount s > endMsgCount s then (False, s)
      else
        let s1 = s\<lparr>
              type_M := type_M s @ [buf 0],
              locateCode_M := locateCode_M s @ [get2bytes (offs buf 1)],
              trackingNumber_M := trackingNumber_M s @ [get2bytes (offs buf 3)],
              timestamp_M := timestamp_M s @ [get6bytes (offs buf 5)],
              orderRef_M := orderRef_M s @ [get8bytes (offs buf 11)]\<rparr>;
            s2 = switch_M buf s1
        in (True, s2\<lparr>messageCount := messageCount s2 + 1\<rparr>))"

section \<open>Freshly constructed decoders\<close>

text \<open>
  Modelled from the spec: the constructors of the three classes are declared in
  \<^verbatim>\<open>MessageTypes.h\<close>, which is not part of the sources at hand. The specification
  gives the accepted type codes of each variant (\<^verbatim>\<open>'A'\<close>, \<^verbatim>\<open>'F'\<close> for Orders;
  \<^verbatim>\<open>'P'\<close>, \<^verbatim>\<open>'Q'\<close>, \<^verbatim>\<open>'B'\<close> for Trades; \<^verbatim>\<open>'E'\<close>, \<^verbatim>\<open>'C'\<close>, \<^verbatim>\<open>'X'\<close>,
  \<^verbatim>\<open>'D'\<close>, \<^verbatim>\<open>'U'\<close> for Modifications), the default window \<open>[0, +\<infinity>)\<close> (the
  largest \<^verbatim>\<open>unsigned long long\<close>), a count of 0, empty columns, and
  \<open>typePositions\<close> as the slots of the accepted type bytes in the count vector that is
  indexed by byte value.
\<close>

definition new_Orders :: Orders where
  "new_Orders = \<lparr>messageCount = 0, startMsgCount = 0, endMsgCount = - 1,
     validTypes = [chr CHR ''A'', chr CHR ''F''], typePositions = [65, 70],
     type_O = [], locateCode_O = [], trackingNumber_O = [], timestamp_O = [],
     orderRef_O = [], buy_O = [], shares_O = [], stock_O = [], price_O = [], mpid_O = []\<rparr>"

definition new_Trades :: Trades where
  "new_Trades = \<lparr>messageCount = 0, startMsgCount = 0, endMsgCount = - 1,
     validTypes = [chr CHR ''P'', chr CHR ''Q'', chr CHR ''B''], typePositions = [80, 81, 66],
     type_T = [], locateCode_T = [], trackingNumber_T = [], timestamp_T = [],
     orderRef_T = [], buy_T = [], shares_T = [], stock_T = [], price_T = [],
     matchNumber_T = [], crossType_T = []\<rparr>"

definition new_Modifications :: Modifications where
  "new_Modifications = \<lparr>messageCount = 0, startMsgCount = 0, endMsgCount = - 1,
     validTypes = [chr CHR ''E'', chr CHR ''C'', chr CHR ''X'', chr CHR ''D'', chr CHR ''U''],
     typePositions = [69, 67, 88, 68, 85],
     type_M = [], locateCode_M = [], trackingNumber_M = [], timestamp_M = [],
     orderRef_M = [], shares_M = [], matchNumber_M = [], printable_M = [], price_M = [],
     newOrderRef_M = []\<rparr>"

section \<open>Sequences of calls\<close>

text \<open>
  The object after one call of \<^verbatim>\<open>loadMessages\<close> on each buffer of a list, in order,
  whatever the calls return.
\<close>

definition calls_O :: "buffer list \<Rightarrow> Orders \<Rightarrow> Orders" where
  "calls_O bufs s = foldl (\<lambda>s buf. snd (loadMessages_O buf s)) s bufs"

definition calls_T :: "buffer list \<Rightarrow> Trades \<Rightarrow> Trades" where
  "calls_T bufs s = foldl (\<lambda>s buf. snd (loadMessages_T buf s)) s bufs"

definition calls_M :: "buffer list \<Rightarrow> Modifications \<Rightarrow> Modifications" where
  "calls_M bufs s = foldl (\<lambda>s buf. snd (loadMessages_M buf s)) s bufs"

section \<open>The polymorphic decoder\<close>

text \<open>
  \<^verbatim>\<open>getMessagesTemplate\<close> receives a \<^verbatim>\<open>MessageType&\<close> and calls its virtual member
  functions; the front ends pass an \<^verbatim>\<open>Orders\<close>, a \<^verbatim>\<open>Trades\<close> or a
  \<^verbatim>\<open>Modifications\<close> object.
\<close>

datatype decoder = OrdersMsg Orders | TradesMsg Trades | ModificationsMsg Modifications

fun loadMessages :: "buffer \<Rightarrow> decoder \<Rightarrow> bool \<times> decoder" where
  "loadMessages buf (OrdersMsg s) = map_prod id OrdersMsg (loadMessages_O buf s)"
| "loadMessages buf (TradesMsg s) = map_prod id TradesMsg (loadMessages_T buf s)"
| "loadMessages buf (ModificationsMsg s) = map_prod id ModificationsMsg (loadMessages_M buf s)"

fun countValid :: "decoder \<Rightarrow> 64 word list \<Rightarrow> 64 word option" where
  "countValid (OrdersMsg s) count = countValidMessages s count"
| "countValid (TradesMsg s) count = countValidMessages s count"
| "countValid (ModificationsMsg s) count = countValidMessages s count"

fun setBounds :: "64 word \<Rightarrow> 64 word \<Rightarrow> decoder \<Rightarrow> decoder" where
  "setBounds a b (OrdersMsg s) = OrdersMsg (setBoundaries a b s)"
| "setBounds a b (TradesMsg s) = TradesMsg (setBoundaries a b s)"
| "setBounds a b (ModificationsMsg s) = ModificationsMsg (setBoundaries a b s)"

text \<open>
  Every \<^verbatim>\<open>reserve\<close> of the three classes calls \<^verbatim>\<open>std::vector::reserve(size)\<close> on
  each column. That call throws \<^verbatim>\<open>std::length_error\<close> when \<open>size\<close> exceeds
  \<^verbatim>\<open>max_size()\<close> of the vector, which no element type lets exceed
  \<^verbatim>\<open>PTRDIFF_MAX\<close> = \<open>2\<^sup>6\<^sup>3 - 1\<close> on a 64-bit platform, and \<^verbatim>\<open>std::bad_alloc\<close> when
  the allocator does not grant the storage. \<open>capacity\<close> is the largest size that the
  allocator grants, a parameter of the environment. Neither exception is caught in
  \<^verbatim>\<open>getMessagesTemplate\<close>: both end the call. A \<^verbatim>\<open>reserve\<close> that returns has
  changed the capacity of the columns and none of their elements.
\<close>

datatype error = AllocationFailure

definition reserve :: "nat \<Rightarrow> 64 word \<Rightarrow> decoder \<Rightarrow> error + decoder" where
  "reserve capacity size' msg =
     (if unat size' < 2 ^ 63 \<and> unat size' \<le> capacity then Inr msg else Inl AllocationFailure)"

section \<open>getMessagesTemplate\<close>

text \<open>
  \<^verbatim>\<open>countMessages\<close> and \<^verbatim>\<open>loadToMessages\<close> are defined outside the two source
  files; \<^verbatim>\<open>getMessagesTemplate\<close> takes them as parameters here, after the
  \<open>capacity\<close> of the environment. The result records the calls made, in order, next
  to the outcome: the decoder that \<^verbatim>\<open>getDF\<close> converts into the returned table, the
  exception that ended the call, or no defined outcome after an access outside the count
  vector. The lines printed when \<^verbatim>\<open>quiet\<close> is false are not modelled.
\<close>

datatype call = CountMessages | Reserve "64 word" | LoadToMessages "64 word" "64 word"

datatype outcome = Table decoder | Failed error | Undefined_behaviour

text \<open>
  The statements after the \<^verbatim>\<open>if\<close>: \<^verbatim>\<open>msg.reserve(nMessages)\<close>, the call of
  \<^verbatim>\<open>loadToMessages\<close> and \<^verbatim>\<open>msg.getDF()\<close>.
\<close>

definition reserve_and_load ::
  "nat \<Rightarrow> ('f \<Rightarrow> decoder \<Rightarrow> 64 word \<Rightarrow> 64 word \<Rightarrow> 64 word \<Rightarrow> bool \<Rightarrow> decoder) \<Rightarrow>
   decoder \<Rightarrow> 'f \<Rightarrow> 64 word \<Rightarrow> 64 word \<Rightarrow> 64 word \<Rightarrow> 64 word \<Rightarrow> bool \<Rightarrow> call list \<times> outcome" where
  "reserve_and_load capacity loadToMessages' msg filename nMessages startMsgCount' endMsgCount'
     bufferSize quiet =
     (case reserve capacity nMessages msg of
        Inl e \<Rightarrow> ([Reserve nMessages], Failed e)
      | Inr msg' \<Rightarrow>
          ([Reserve nMessages, LoadToMessages startMsgCount' endMsgCount'],
           Table (loadToMessages' filename msg' startMsgCount' endMsgCount' bufferSize quiet)))"

definition getMessagesTemplate ::
  "nat \<Rightarrow> ('f \<Rightarrow> 64 word \<Rightarrow> 64 word list) \<Rightarrow>
   ('f \<Rightarrow> decoder \<Rightarrow> 64 word \<Rightarrow> 64 word \<Rightarrow> 64 word \<Rightarrow> bool \<Rightarrow> decoder) \<Rightarrow>
   decoder \<Rightarrow> 'f \<Rightarrow> 64 word \<Rightarrow> 64 word \<Rightarrow> 64 word \<Rightarrow> bool \<Rightarrow> call list \<times> outcome" where
  "getMessagesTemplate capacity countMessages' loadToMessages' msg filename startMsgCount0
     endMsgCount0 bufferSize quiet =
     (let (startMsgCount1, endMsgCount1) =
            (if startMsgCount0 > endMsgCount0 then (endMsgCount0, startMsgCount0)
             else (startMsgCount0, endMsgCount0))
      in if endMsgCount1 = 0
         then (case countValid msg (countMessages' filename bufferSize) of
                 None \<Rightarrow> ([CountMessages], Undefined_behaviour)
               | Some endMsgCount2 \<Rightarrow>
                   let nMessages = endMsgCount2 - startMsgCount1;
                       (calls, result) = reserve_and_load capacity loadToMessages' msg filename
                         nMessages startMsgCount1 endMsgCount2 bufferSize quiet
                   in (CountMessages # calls, result))
         else
           let nMessages = endMsgCount1 - startMsgCount1 + 1
           in reserve_and_load capacity loadToMessages' msg filename nMessages
                startMsgCount1 endMsgCount1 bufferSize quiet)"

section \<open>The loader and the counting pass\<close>

text \<open>
  Modelled from the spec: \<^verbatim>\<open>loadToMessages\<close> is defined outside the two source files.
  By the specification the loader hands every complete frame of the file, in order, to
  \<^verbatim>\<open>loadMessages\<close> of the decoder, whose window it has set, and stops the scan at the
  first call that returns the termination signal. A file is given by the list of its
  frames; the splitting of the byte stream into frames and the buffer size are not
  modelled.
\<close>

fun loadFrames :: "buffer list \<Rightarrow> decoder \<Rightarrow> decoder" where
  "loadFrames [] msg = msg"
| "loadFrames (buf # rest) msg =
     (case loadMessages buf msg of
        (True, msg') \<Rightarrow> loadFrames rest msg'
      | (False, msg') \<Rightarrow> msg')"

definition loadToMessages ::
  "buffer list \<Rightarrow> decoder \<Rightarrow> 64 word \<Rightarrow> 64 word \<Rightarrow> 64 word \<Rightarrow> bool \<Rightarrow> decoder" where
  "loadToMessages filename msg startMsgCount' endMsgCount' bufferSize quiet =
     loadFrames filename (setBounds startMsgCount' endMsgCount' msg)"

text \<open>
  Modelled from the spec: \<^verbatim>\<open>countMessages\<close> is defined outside the two source files.
  By the specification it returns a vector indexed by every byte value 0 to 255 that
  holds, for each value, the number of frames with this type byte.
\<close>

definition countMessages :: "buffer list \<Rightarrow> 64 word \<Rightarrow> 64 word list" where
  "countMessages filename bufferSize =
     map (\<lambda>b. of_nat (length (filter (\<lambda>buf. unat (buf 0) = b) filename))) [0..<256]"

section \<open>Notions of the specification\<close>

text \<open>The inclusive window test of the specification.\<close>

definition in_window :: "'a MessageType_scheme \<Rightarrow> bool" where
  "in_window s \<longleftrightarrow> startMsgCount s \<le> messageCount s \<and> messageCount s \<le> endMsgCount s"

text \<open>A fixed-width field with its trailing spaces removed.\<close>

definition rtrim :: "byte list \<Rightarrow> byte list" where
  "rtrim xs = rev (dropWhile (\<lambda>c. c = white) (rev xs))"

text \<open>The bytes \<^verbatim>\<open>buf[k]\<close>, ..., \<^verbatim>\<open>buf[k + n - 1]\<close> of a field.\<close>

definition field :: "buffer \<Rightarrow> nat \<Rightarrow> nat \<Rightarrow> byte list" where
  "field buf k n = map (\<lambda>i. buf (k + i)) [0..<n]"

text \<open>
  The unsigned integer that the four bytes at offset \<open>k\<close> denote, most significant
  byte first, divided by 10000 as a \<^verbatim>\<open>double\<close>.
\<close>

definition price_of_field :: "buffer \<Rightarrow> nat \<Rightarrow> double" where
  "price_of_field buf k =
     round_double (of_nat (\<Sum>i<4. unat (buf (k + i)) * 256 ^ (4 - 1 - i)) / 10000)"

text \<open>
  The first \<open>n\<close> frames of a file among those whose type byte is one of the given
  type codes.
\<close>

definition first_messages :: "nat \<Rightarrow> byte list \<Rightarrow> buffer list \<Rightarrow> buffer list" where
  "first_messages n valid file = take n (filter (\<lambda>buf. buf 0 \<in> set valid) file)"

text \<open>The lengths of the columns of a decoder, in the order of its \<^verbatim>\<open>getDF\<close>.\<close>

definition lengths_O :: "Orders \<Rightarrow> nat list" where
  "lengths_O s = [length (type_O s), length (locateCode_O s), length (trackingNumber_O s),
     length (timestamp_O s), length (orderRef_O s), length (buy_O s), length (shares_O s),
     length (stock_O s), length (price_O s), length (mpid_O s)]"

definition lengths_T :: "Trades \<Rightarrow> nat list" where
  "lengths_T s = [length (type_T s), length (locateCode_T s), length (trackingNumber_T s),
     length (timestamp_T s), length (orderRef_T s), length (buy_T s), length (shares_T s),
     length (stock_T s), length (price_T s), length (matchNumber_T s), length (crossType_T s)]"

definition lengths_M :: "Modifications \<Rightarrow> nat list" where
  "lengths_M s = [length (type_M s), length (locateCode_M s), length (trackingNumber_M s),
     length (timestamp_M s), length (orderRef_M s), length (shares_M s),
     length (matchNumber_M s), length (printable_M s), length (price_M s),
     length (newOrderRef_M s)]"

text \<open>A column after one \<^verbatim>\<open>push_back\<close>: the old column followed by one element.\<close>

definition appended :: "'a list \<Rightarrow> 'a list \<Rightarrow> bool" where
  "appended old new \<longleftrightarrow> new \<noteq> [] \<and> butlast new = old"

text \<open>Every column of the decoder has received one element.\<close>

definition row_appended_O :: "Orders \<Rightarrow> Orders \<Rightarrow> bool" where
  "row_appended_O s s' \<longleftrightarrow>
     appended (type_O s) (type_O s') \<and> appended (locateCode_O s) (locateCode_O s') \<and>
     appended (trackingNumber_O s) (trackingNumber_O s') \<and>
     appended (timestamp_O s) (timestamp_O s') \<and> appended (orderRef_O s) (orderRef_O s') \<and>
     appended (buy_O s) (buy_O s') \<and> appended (shares_O s) (shares_O s') \<and>
     appended (stock_O s) (stock_O s') \<and> appended (price_O s) (price_O s') \<and>
     appended (mpid_O s) (mpid_O s')"

definition row_appended_T :: "Trades \<Rightarrow> Trades \<Rightarrow> bool" where
  "row_appended_T s s' \<longleftrightarrow>
     appended (type_T s) (type_T s') \<and> appended (locateCode_T s) (locateCode_T s') \<and>
     appended (trackingNumber_T s) (trackingNumber_T s') \<and>
     appended (timestamp_T s) (timestamp_T s') \<and> appended (orderRef_T s) (orderRef_T s') \<and>
     appended (buy_T s) (buy_T s') \<and> appended (shares_T s) (shares_T s') \<and>
     appended (stock_T s) (stock_T s') \<and> appended (price_T s) (price_T s') \<and>
     appended (matchNumber_T s) (matchNumber_T s') \<and>
     appended (crossType_T s) (crossType_T s')"

definition row_appended_M :: "Modifications \<Rightarrow> Modifications \<Rightarrow> bool" where
  "row_appended_M s s' \<longleftrightarrow>
     appended (type_M s) (type_M s') \<and> appended (locateCode_M s) (locateCode_M s') \<and>
     appended (trackingNumber_M s) (trackingNumber_M s') \<and>
     appended (timestamp_M s) (timestamp_M s') \<and> appended (orderRef_M s) (orderRef_M s') \<and>
     appended (shares_M s) (shares_M s') \<and> appended (matchNumber_M s) (matchNumber_M s') \<and>
     appended (printable_M s) (printable_M s') \<and> appended (price_M s) (price_M s') \<and>
     appended (newOrderRef_M s) (newOrderRef_M s')"

text \<open>
  No column of the decoder has changed: the two objects differ at most in the members
  of the base class.
\<close>

definition columns_unchanged_O :: "Orders \<Rightarrow> Orders \<Rightarrow> bool" where
  "columns_unchanged_O s s' \<longleftrightarrow>
     type_O s' = type_O s \<and> locateCode_O s' = locateCode_O s \<and>
     trackingNumber_O s' = trackingNumber_O s \<and> timestamp_O s' = timestamp_O s \<and>
     orderRef_O s' = orderRef_O s \<and> buy_O s' = buy_O s \<and> shares_O s' = shares_O s \<and>
     stock_O s' = stock_O s \<and> price_O s' = price_O s \<and> mpid_O s' = mpid_O s"

definition columns_unchanged_T :: "Trades \<Rightarrow> Trades \<Rightarrow> bool" where
  "columns_unchanged_T s s' \<longleftrightarrow>
     type_T s' = type_T s \<and> locateCode_T s' = locateCode_T s \<and>
     trackingNumber_T s' = trackingNumber_T s \<and> timestamp_T s' = timestamp_T s \<and>
     orderRef_T s' = orderRef_T s \<and> buy_T s' = buy_T s \<and> shares_T s' = shares_T s \<and>
     stock_T s' = stock_T s \<and> price_T s' = price_T s \<and>
     matchNumber_T s' = matchNumber_T s \<and> crossType_T s' = crossType_T s"

definition columns_unchanged_M :: "Modifications \<Rightarrow> Modifications \<Rightarrow> bool" where
  "columns_unchanged_M s s' \<longleftrightarrow>
     type_M s' = type_M s \<and> locateCode_M s' = locateCode_M s \<and>
     trackingNumber_M s' = trackingNumber_M s \<and> timestamp_M s' = timestamp_M s \<and>
     orderRef_M s' = orderRef_M s \<and> shares_M s' = shares_M s \<and>
     matchNumber_M s' = matchNumber_M s \<and> printable_M s' = printable_M s \<and>
     price_M s' = price_M s \<and> newOrderRef_M s' = newOrderRef_M s"

text \<open>All numbers of a list are the same.\<close>

definition all_equal :: "nat list \<Rightarrow> bool" where
  "all_equal ns \<longleftrightarrow> ns = replicate (length ns) (hd ns)"

section \<open>Concrete frames\<close>

text \<open>
  An add-order frame of type \<^verbatim>\<open>'A'\<close> with locate code 1, tracking number 0, timestamp
  0, order reference 100, the buy flag \<^verbatim>\<open>'B'\<close>, 500 shares, the given eight bytes of
  the stock symbol and the given four bytes of the price.
\<close>

definition order_frame :: "string \<Rightarrow> byte list \<Rightarrow> buffer" where
  "order_frame symbol price =
     bytes_at ([chr CHR ''A'', 0, 1, 0, 0, 0, 0, 0, 0, 0, 0, 0, 0, 0, 0, 0, 0, 0, 100,
                chr CHR ''B'', 0, 0, 1, 244] @ map chr symbol @ price)"

text \<open>
  An order-executed frame of type \<^verbatim>\<open>'E'\<close> with locate code 1, tracking number 0,
  timestamp 0, order reference 100, 500 executed shares and match number 7.
\<close>

definition executed_frame :: buffer where
  "executed_frame =
     bytes_at [chr CHR ''E'', 0, 1, 0, 0, 0, 0, 0, 0, 0, 0, 0, 0, 0, 0, 0, 0, 0, 100,
               0, 0, 1, 244, 0, 0, 0, 0, 0, 0, 0, 7]"

text \<open>
  A non-cross trade frame of type \<^verbatim>\<open>'P'\<close> with locate code 1, tracking number 0,
  timestamp 0, order reference 100, the buy flag \<^verbatim>\<open>'B'\<close>, 500 shares, the symbol
  \<^verbatim>\<open>"AAPL    "\<close>, the price bytes of 1500000 and match number 7.
\<close>

definition trade_frame :: buffer where
  "trade_frame =
     bytes_at ([chr CHR ''P'', 0, 1, 0, 0, 0, 0, 0, 0, 0, 0, 0, 0, 0, 0, 0, 0, 0, 100,
                chr CHR ''B'', 0, 0, 1, 244] @ map chr ''AAPL    '' @
               [0, 22, 227, 96, 0, 0, 0, 0, 0, 0, 0, 7])"

text \<open>
  A cross trade frame of type \<^verbatim>\<open>'Q'\<close>: 500 shares at offset 11, the symbol
  \<^verbatim>\<open>"AAPL    "\<close> at offset 19, the price bytes of 1500000 at offset 27, match
  number 7 at offset 31 and the cross type \<^verbatim>\<open>'O'\<close> at offset 39.
\<close>

definition cross_frame :: buffer where
  "cross_frame =
     bytes_at ([chr CHR ''Q'', 0, 1, 0, 0, 0, 0, 0, 0, 0, 0, 0, 0, 1, 244, 0, 0, 0, 0] @
               map chr ''AAPL    '' @ [0, 22, 227, 96, 0, 0, 0, 0, 0, 0, 0, 7, chr CHR ''O''])"

text \<open>
  An order-executed-with-price frame of type \<^verbatim>\<open>'C'\<close>: order reference 100, 500
  executed shares, match number 7, the printable flag \<^verbatim>\<open>'Y'\<close> at offset 31 and the
  price bytes of 1500000 at offset 32.
\<close>

definition executed_price_frame :: buffer where
  "executed_price_frame =
     bytes_at [chr CHR ''C'', 0, 1, 0, 0, 0, 0, 0, 0, 0, 0, 0, 0, 0, 0, 0, 0, 0, 100,
               0, 0, 1, 244, 0, 0, 0, 0, 0, 0, 0, 7, chr CHR ''Y'', 0, 22, 227, 96]"

text \<open>
  An order-replace frame of type \<^verbatim>\<open>'U'\<close>: order reference 100, new order reference
  101 at offset 19, 500 shares at offset 27 and the price bytes of 1500000 at offset 31.
\<close>

definition replace_frame :: buffer where
  "replace_frame =
     bytes_at [chr CHR ''U'', 0, 1, 0, 0, 0, 0, 0, 0, 0, 0, 0, 0, 0, 0, 0, 0, 0, 100,
               0, 0, 0, 0, 0, 0, 0, 101, 0, 0, 1, 244, 0, 22, 227, 96]"

text \<open>
  A broken trade frame of type \<^verbatim>\<open>'B'\<close> with match number 7 at offset 11.
\<close>

definition broken_frame :: buffer where
  "broken_frame =
     bytes_at [chr CHR ''B'', 0, 1, 0, 0, 0, 0, 0, 0, 0, 0, 0, 0, 0, 0, 0, 0, 0, 7]"

text \<open>
  An order-cancel frame of type \<^verbatim>\<open>'X'\<close> with order reference 100 and 500 cancelled
  shares at offset 19.
\<close>

definition cancel_frame :: buffer where
  "cancel_frame =
     bytes_at [chr CHR ''X'', 0, 1, 0, 0, 0, 0, 0, 0, 0, 0, 0, 0, 0, 0, 0, 0, 0, 100,
               0, 0, 1, 244]"

text \<open>An order-delete frame of type \<^verbatim>\<open>'D'\<close> with order reference 100.\<close>

definition delete_frame :: buffer where
  "delete_frame =
     bytes_at [chr CHR ''D'', 0, 1, 0, 0, 0, 0, 0, 0, 0, 0, 0, 0, 0, 0, 0, 0, 0, 100]"

section \<open>Concrete decoders\<close>

text \<open>
  The decoders with the window \<open>[0, 0]\<close> after one call on a frame of theirs: the one
  message of the window is loaded and \<open>messageCount\<close> is 1.
\<close>

definition full_Orders :: Orders where
  "full_Orders =
     snd (loadMessages_O (order_frame ''AAPL    '' [0, 22, 227, 96]) (setBoundaries 0 0 new_Orders))"

definition full_Trades :: Trades where
  "full_Trades = snd (loadMessages_T trade_frame (setBoundaries 0 0 new_Trades))"

definition full_Modifications :: Modifications where
  "full_Modifications = snd (loadMessages_M executed_frame (setBoundaries 0 0 new_Modifications))"

text \<open>
  The decoders with the window \<open>[1, 2]\<close> before any call, and after one call on a
  frame of theirs: that frame is counted and not loaded, \<open>messageCount\<close> is 1 and the
  columns are empty.
\<close>

definition early_Orders :: Orders where
  "early_Orders = setBoundaries 1 2 new_Orders"

definition early_Trades :: Trades where
  "early_Trades = setBoundaries 1 2 new_Trades"

definition early_Modifications :: Modifications where
  "early_Modifications = setBoundaries 1 2 new_Modifications"

definition open_Orders :: Orders where
  "open_Orders = snd (loadMessages_O (order_frame ''MSFT    '' [0, 22, 227, 96]) early_Orders)"

definition open_Trades :: Trades where
  "open_Trades = snd (loadMessages_T trade_frame early_Trades)"

definition open_Modifications :: Modifications where
  "open_Modifications = snd (loadMessages_M executed_frame early_Modifications)"

chapter \<open>Properties\<close>

section \<open>Field extraction is big-endian\<close>

lemma byte_bit_lt: "bit (b :: byte) n \<Longrightarrow> n < 8"
  by (drule bit_imp_le_length) simp

lemma bit_ucast_byte:
  "bit (ucast (b :: byte) :: 'a::len word) n \<longleftrightarrow> n < 8 \<and> n < LENGTH('a) \<and> bit b n"
  by (auto simp add: bit_simps dest: byte_bit_lt)

lemma mask_FF: "(0xFF :: 'a::len word) = mask 8"
  by (simp add: mask_eq_exp_minus_1)

lemma mask_FF00: "(0xFF00 :: 'a::len word) = push_bit 8 (mask 8)"
  by (simp add: mask_eq_exp_minus_1 push_bit_eq_mult)

lemma mask_FF0000: "(0xFF0000 :: 'a::len word) = push_bit 16 (mask 8)"
  by (simp add: mask_eq_exp_minus_1 push_bit_eq_mult)

lemma mask_FF000000: "(0xFF000000 :: 'a::len word) = push_bit 24 (mask 8)"
  by (simp add: mask_eq_exp_minus_1 push_bit_eq_mult)

lemma mask_hi48: "(0xFFFFFFFFFFFF0000 :: 'a::len word) = push_bit 16 (mask 48)"
  by (simp add: mask_eq_exp_minus_1 push_bit_eq_mult)

lemmas byte_masks = mask_FF mask_FF00 mask_FF0000 mask_FF000000 mask_hi48

lemma octet_cases:
  assumes "n < (64::nat)"
  obtains r where "r < 8" "n = r" | r where "r < 8" "n = r + 8" | r where "r < 8" "n = r + 16"
    | r where "r < 8" "n = r + 24" | r where "r < 8" "n = r + 32" | r where "r < 8" "n = r + 40"
    | r where "r < 8" "n = r + 48" | r where "r < 8" "n = r + 56"
proof -
  have "n < 8 \<or> (8 \<le> n \<and> n < 16) \<or> (16 \<le> n \<and> n < 24) \<or> (24 \<le> n \<and> n < 32)
     \<or> (32 \<le> n \<and> n < 40) \<or> (40 \<le> n \<and> n < 48) \<or> (48 \<le> n \<and> n < 56) \<or> (56 \<le> n \<and> n < 64)"
    using assms by linarith
  then show thesis
  proof (elim disjE conjE)
    assume "n < 8" then show thesis using that(1) [of n] by simp
  next
    assume "8 \<le> n" "n < 16" then show thesis using that(2) [of "n - 8"] by simp
  next
    assume "16 \<le> n" "n < 24" then show thesis using that(3) [of "n - 16"] by simp
  next
    assume "24 \<le> n" "n < 32" then show thesis using that(4) [of "n - 24"] by simp
  next
    assume "32 \<le> n" "n < 40" then show thesis using that(5) [of "n - 32"] by simp
  next
    assume "40 \<le> n" "n < 48" then show thesis using that(6) [of "n - 40"] by simp
  next
    assume "48 \<le> n" "n < 56" then show thesis using that(7) [of "n - 48"] by simp
  next
    assume "56 \<le> n" "n < 64" then show thesis using that(8) [of "n - 56"] by simp
  qed
qed

text \<open>Each extraction, written as a Horner scheme over the bytes in buffer order.\<close>

lemma get2bytes_horner:
  "get2bytes buf = push_bit 8 (ucast (buf 0)) OR ucast (buf 1)"
  unfolding get2bytes_def bswap16_def load16_def
  by (rule bit_word_eqI) (auto simp add: bit_simps mask_FF dest: byte_bit_lt)

lemma get4bytes_horner:
  "get4bytes buf =
     push_bit 8 (push_bit 8 (push_bit 8 (ucast (buf 0)) OR ucast (buf 1)) OR ucast (buf 2))
       OR ucast (buf 3)"
  (is "?l = ?r")
proof (rule bit_word_eqI)
  fix n assume "n < LENGTH(32)"
  then have "n < 64" by simp
  then show "bit ?l n = bit ?r n"
    unfolding get4bytes_def bswap32_def load32_def
    by (cases n rule: octet_cases)
      (simp_all add: bit_or_iff bit_and_iff bit_push_bit_iff bit_drop_bit_eq bit_mask_iff
         bit_ucast_byte byte_masks)
qed

lemma get6bytes_horner:
  "get6bytes buf =
     push_bit 8 (push_bit 8 (push_bit 8 (push_bit 8 (push_bit 8
       (ucast (buf 0)) OR ucast (buf 1)) OR ucast (buf 2)) OR ucast (buf 3))
       OR ucast (buf 4)) OR ucast (buf 5)"
  (is "?l = ?r")
proof (rule bit_word_eqI)
  fix n assume "n < LENGTH(64)"
  then have "n < 64" by simp
  then show "bit ?l n = bit ?r n"
    unfolding get6bytes_def bswap64_def load64_def
    by (cases n rule: octet_cases)
      (simp_all add: bit_or_iff bit_and_iff bit_push_bit_iff bit_drop_bit_eq bit_mask_iff
         bit_ucast_byte byte_masks)
qed

lemma get8bytes_horner:
  "get8bytes buf =
     push_bit 8 (push_bit 8 (push_bit 8 (push_bit 8 (push_bit 8 (push_bit 8 (push_bit 8
       (ucast (buf 0)) OR ucast (buf 1)) OR ucast (buf 2)) OR ucast (buf 3))
       OR ucast (buf 4)) OR ucast (buf 5)) OR ucast (buf 6)) OR ucast (buf 7)"
  (is "?l = ?r")
proof (rule bit_word_eqI)
  fix n assume "n < LENGTH(64)"
  then have "n < 64" by simp
  then show "bit ?l n = bit ?r n"
    unfolding get8bytes_def bswap64_def load64_def
    by (cases n rule: octet_cases)
      (simp_all add: bit_or_iff bit_and_iff bit_push_bit_iff bit_drop_bit_eq bit_mask_iff
         bit_ucast_byte byte_masks)
qed

text \<open>The unsigned value of one Horner step, when nothing is shifted out.\<close>

lemma unat_byte_lt: "unat (b :: byte) < 256"
  using unsigned_less [of b] by simp

lemma horner_step:
  fixes w :: "'a::len word" and b :: byte
  assumes len: "8 \<le> LENGTH('a)" and small: "unat w < 2 ^ (LENGTH('a) - 8)"
  shows "unat (push_bit 8 w OR ucast b) = unat w * 256 + unat b"
proof -
  have disj: "push_bit 8 w OR (ucast b :: 'a word) = push_bit 8 w + ucast b"
    by (rule disjunctive_add [symmetric]) (auto simp add: bit_simps dest: byte_bit_lt)
  have "(2::nat) ^ 8 \<le> 2 ^ LENGTH('a)"
    using len by (rule power_increasing) simp
  with unat_byte_lt [of b] have "unat b < 2 ^ LENGTH('a)"
    by simp
  then have ub: "unat (ucast b :: 'a word) = unat b"
    by (simp add: unsigned_ucast_eq take_bit_nat_eq_self)
  have "(2::nat) ^ (LENGTH('a) - 8) * 2 ^ 8 = 2 ^ (LENGTH('a) - 8 + 8)"
    by (simp only: power_add)
  then have pw: "2 ^ (LENGTH('a) - 8) * (256::nat) = 2 ^ LENGTH('a)"
    using len by simp
  have "unat w * 256 + 256 \<le> 2 ^ (LENGTH('a) - 8) * (256::nat)"
    using small by (metis Suc_leI mult_Suc add.commute mult_le_mono1)
  then have bound: "unat w * 256 + unat b < 2 ^ LENGTH('a)"
    using unat_byte_lt [of b] pw by simp
  then have m: "unat w * 256 < 2 ^ LENGTH('a)"
    by simp
  have "push_bit 8 (unat w) = unat w * 256"
    by (simp add: push_bit_eq_mult)
  moreover have "unat (push_bit 8 w) = take_bit LENGTH('a) (push_bit 8 (unat w))"
    by (rule unsigned_push_bit_eq)
  ultimately have up: "unat (push_bit 8 w) = unat w * 256"
    using m by (simp add: take_bit_nat_eq_self)
  show ?thesis
    using bound by (simp add: disj unat_word_ariths up ub)
qed

lemma unat_ucast_byte:
  "8 \<le> LENGTH('a) \<Longrightarrow> unat (ucast (b :: byte) :: 'a::len word) = unat b"
  using horner_step [of "0 :: 'a word" b] by simp

lemma horner_chain:
  fixes w :: "'a::len word" and b :: byte
  assumes "unat w = v" and "v < 256 ^ k" and "8 * Suc k \<le> LENGTH('a)"
  shows "unat (push_bit 8 w OR ucast b) = v * 256 + unat b"
    and "v * 256 + unat b < 256 ^ Suc k"
proof -
  have "(256::nat) ^ k = 2 ^ (8 * k)"
    by (simp add: power_mult)
  also have "\<dots> \<le> 2 ^ (LENGTH('a) - 8)"
    using assms(3) by (intro power_increasing) simp_all
  finally have "unat w < 2 ^ (LENGTH('a) - 8)"
    using assms(1,2) by simp
  moreover have "8 \<le> LENGTH('a)"
    using assms(3) by simp
  ultimately show "unat (push_bit 8 w OR ucast b) = v * 256 + unat b"
    using horner_step [of w b] assms(1) by simp
  have "v * 256 + 256 \<le> 256 ^ k * 256"
    using assms(2) by (metis Suc_leI mult_Suc add.commute mult_le_mono1)
  then show "v * 256 + unat b < 256 ^ Suc k"
    using unat_byte_lt [of b] by simp
qed

lemma unat_get2bytes: "unat (get2bytes buf) = unat (buf 0) * 256 + unat (buf 1)"
proof -
  have a: "unat (ucast (buf 0) :: 32 word) = unat (buf 0)"
    by (simp add: unat_ucast_byte)
  have b: "unat (buf 0) < 256 ^ 1"
    using unat_byte_lt [of "buf 0"] by simp
  show ?thesis
    unfolding get2bytes_horner by (rule horner_chain(1) [OF a b]) simp
qed

lemma unat_get4bytes:
  "unat (get4bytes buf) =
     ((unat (buf 0) * 256 + unat (buf 1)) * 256 + unat (buf 2)) * 256 + unat (buf 3)"
proof -
  have a: "unat (ucast (buf 0) :: 32 word) = unat (buf 0)"
    by (simp add: unat_ucast_byte)
  have b: "unat (buf 0) < 256 ^ 1"
    using unat_byte_lt [of "buf 0"] by simp
  note s1 = horner_chain [OF a b, of "buf 1"]
  note s2 = horner_chain [OF s1(1) s1(2), of "buf 2"]
  show ?thesis
    unfolding get4bytes_horner by (rule horner_chain(1) [OF s2(1) s2(2)]) simp_all
qed

lemma unat_get6bytes:
  "unat (get6bytes buf) =
     ((((unat (buf 0) * 256 + unat (buf 1)) * 256 + unat (buf 2)) * 256 + unat (buf 3)) * 256
        + unat (buf 4)) * 256 + unat (buf 5)"
proof -
  have a: "unat (ucast (buf 0) :: 64 word) = unat (buf 0)"
    by (simp add: unat_ucast_byte)
  have b: "unat (buf 0) < 256 ^ 1"
    using unat_byte_lt [of "buf 0"] by simp
  note s1 = horner_chain [OF a b, of "buf 1"]
  note s2 = horner_chain [OF s1(1) s1(2), of "buf 2"]
  note s3 = horner_chain [OF s2(1) s2(2), of "buf 3"]
  note s4 = horner_chain [OF s3(1) s3(2), of "buf 4"]
  show ?thesis
    unfolding get6bytes_horner by (rule horner_chain(1) [OF s4(1) s4(2)]) simp_all
qed

lemma unat_get8bytes:
  "unat (get8bytes buf) =
     ((((((unat (buf 0) * 256 + unat (buf 1)) * 256 + unat (buf 2)) * 256 + unat (buf 3)) * 256
        + unat (buf 4)) * 256 + unat (buf 5)) * 256 + unat (buf 6)) * 256 + unat (buf 7)"
proof -
  have a: "unat (ucast (buf 0) :: 64 word) = unat (buf 0)"
    by (simp add: unat_ucast_byte)
  have b: "unat (buf 0) < 256 ^ 1"
    using unat_byte_lt [of "buf 0"] by simp
  note s1 = horner_chain [OF a b, of "buf 1"]
  note s2 = horner_chain [OF s1(1) s1(2), of "buf 2"]
  note s3 = horner_chain [OF s2(1) s2(2), of "buf 3"]
  note s4 = horner_chain [OF s3(1) s3(2), of "buf 4"]
  note s5 = horner_chain [OF s4(1) s4(2), of "buf 5"]
  note s6 = horner_chain [OF s5(1) s5(2), of "buf 6"]
  show ?thesis
    unfolding get8bytes_horner by (rule horner_chain(1) [OF s6(1) s6(2)]) simp_all
qed

text \<open>
  Claim C8. \<^verbatim>\<open>get2bytes\<close>, \<^verbatim>\<open>get4bytes\<close>, \<^verbatim>\<open>get6bytes\<close> and \<^verbatim>\<open>get8bytes\<close>
  return the unsigned integer formed by the 2, 4, 6 and 8 bytes that start at the given
  buffer position, most significant byte first: the sum of \<open>buf[i] * 256 ^ (n - 1 - i)\<close>
  over the \<open>n\<close> bytes \<open>i = 0, ..., n - 1\<close>.
\<close>

theorem get_bytes_big_endian:
  "unat (get2bytes (offs buf k)) = (\<Sum>i<2. unat (buf (k + i)) * 256 ^ (2 - 1 - i)) \<and>
   unat (get4bytes (offs buf k)) = (\<Sum>i<4. unat (buf (k + i)) * 256 ^ (4 - 1 - i)) \<and>
   unat (get6bytes (offs buf k)) = (\<Sum>i<6. unat (buf (k + i)) * 256 ^ (6 - 1 - i)) \<and>
   unat (get8bytes (offs buf k)) = (\<Sum>i<8. unat (buf (k + i)) * 256 ^ (8 - 1 - i))"
  by (simp add: unat_get2bytes unat_get4bytes unat_get6bytes unat_get8bytes offs_def
      lessThan_nat_numeral lessThan_Suc pred_numeral_simps)

section \<open>The loops of the decoders\<close>

lemma foldl_or_eq: "foldl (\<lambda>r t. r \<or> x = t) acc ts \<longleftrightarrow> acc \<or> x \<in> set ts"
  by (induction ts arbitrary: acc) auto

lemma rightMessage_iff: "rightMessage valid buf \<longleftrightarrow> buf 0 \<in> set valid"
  by (simp add: rightMessage_def foldl_or_eq)

lemma read_string_eq_filter:
  "read_string buf k n = filter (\<lambda>c. c \<noteq> white) (field buf k n)"
  unfolding read_string_def field_def
  by (induction n) simp_all

section \<open>Frames of other types\<close>

text \<open>
  Claim C9. A call of \<^verbatim>\<open>loadMessages\<close> on a frame whose type byte is not in the
  \<open>validTypes\<close> of the variant returns true and leaves the whole decoder unchanged:
  \<open>messageCount\<close> is not incremented and no column is modified, wherever the count
  stands relative to the window.
\<close>

theorem loadMessages_skips_other_types:
  "(bufO 0 \<notin> set (validTypes sO) \<longrightarrow> loadMessages_O bufO sO = (True, sO)) \<and>
   (bufT 0 \<notin> set (validTypes sT) \<longrightarrow> loadMessages_T bufT sT = (True, sT)) \<and>
   (bufM 0 \<notin> set (validTypes sM) \<longrightarrow> loadMessages_M bufM sM = (True, sM))"
  by (simp add: loadMessages_O_def loadMessages_T_def loadMessages_M_def rightMessage_iff)

theorem loadMessages_skips_other_types_witness:
  "bytes_at [chr CHR ''P''] 0 \<notin> set (validTypes new_Orders) \<and>
   loadMessages_O (bytes_at [chr CHR ''P'']) new_Orders = (True, new_Orders) \<and>
   bytes_at [chr CHR ''A''] 0 \<notin> set (validTypes new_Trades) \<and>
   loadMessages_T (bytes_at [chr CHR ''A'']) new_Trades = (True, new_Trades) \<and>
   bytes_at [chr CHR ''A''] 0 \<notin> set (validTypes new_Modifications) \<and>
   loadMessages_M (bytes_at [chr CHR ''A'']) new_Modifications = (True, new_Modifications)"
  using loadMessages_skips_other_types [of "bytes_at [chr CHR ''P'']" new_Orders
      "bytes_at [chr CHR ''A'']" new_Trades "bytes_at [chr CHR ''A'']" new_Modifications]
  by (simp add: bytes_at_def chr_def new_Orders_def new_Trades_def new_Modifications_def)

section \<open>Equal column lengths\<close>

lemma all_equal_O_step:
  "all_equal (lengths_O s) \<Longrightarrow> all_equal (lengths_O (snd (loadMessages_O buf s)))"
  by (simp add: all_equal_def lengths_O_def loadMessages_O_def)


lemma validTypes_loadMessages_O [simp]:
  "validTypes (snd (loadMessages_O buf s)) = validTypes s"
  by (simp add: loadMessages_O_def)

lemma validTypes_loadMessages_T [simp]:
  "validTypes (snd (loadMessages_T buf s)) = validTypes s"
  by (simp add: loadMessages_T_def switch_T_def Let_def)

lemma validTypes_loadMessages_M [simp]:
  "validTypes (snd (loadMessages_M buf s)) = validTypes s"
  by (simp add: loadMessages_M_def switch_M_def Let_def)

lemma all_equal_T_step:
  assumes "set (validTypes s) \<subseteq> set (validTypes new_Trades)" and "all_equal (lengths_T s)"
  shows "all_equal (lengths_T (snd (loadMessages_T buf s)))"
proof (cases "rightMessage (validTypes s) buf")
  case False
  then show ?thesis
    using assms(2) by (simp add: loadMessages_T_def)
next
  case True
  then have "buf 0 \<in> set (validTypes new_Trades)"
    using assms(1) by (auto simp add: rightMessage_iff)
  then have "buf 0 = chr CHR ''P'' \<or> buf 0 = chr CHR ''Q'' \<or> buf 0 = chr CHR ''B''"
    by (simp add: new_Trades_def)
  then show ?thesis
    using assms(2)
    by (auto simp add: loadMessages_T_def switch_T_def Let_def all_equal_def lengths_T_def chr_def)
qed

lemma all_equal_M_step:
  assumes "set (validTypes s) \<subseteq> set (validTypes new_Modifications)"
    and "all_equal (lengths_M s)"
  shows "all_equal (lengths_M (snd (loadMessages_M buf s)))"
proof (cases "rightMessage (validTypes s) buf")
  case False
  then show ?thesis
    using assms(2) by (simp add: loadMessages_M_def)
next
  case True
  then have "buf 0 \<in> set (validTypes new_Modifications)"
    using assms(1) by (auto simp add: rightMessage_iff)
  then have "buf 0 = chr CHR ''E'' \<or> buf 0 = chr CHR ''C'' \<or> buf 0 = chr CHR ''X''
      \<or> buf 0 = chr CHR ''D'' \<or> buf 0 = chr CHR ''U''"
    by (simp add: new_Modifications_def)
  then show ?thesis
    using assms(2)
    by (auto simp add: loadMessages_M_def switch_M_def Let_def all_equal_def lengths_M_def chr_def)
qed

lemma all_equal_calls_O:
  "all_equal (lengths_O s) \<Longrightarrow> all_equal (lengths_O (calls_O bufs s))"
  unfolding calls_O_def
  by (induction bufs arbitrary: s) (simp_all add: all_equal_O_step)

lemma all_equal_calls_T:
  "set (validTypes s) \<subseteq> set (validTypes new_Trades) \<Longrightarrow> all_equal (lengths_T s) \<Longrightarrow>
   all_equal (lengths_T (calls_T bufs s))"
  unfolding calls_T_def
  by (induction bufs arbitrary: s) (simp_all add: all_equal_T_step)

lemma all_equal_calls_M:
  "set (validTypes s) \<subseteq> set (validTypes new_Modifications) \<Longrightarrow> all_equal (lengths_M s) \<Longrightarrow>
   all_equal (lengths_M (calls_M bufs s))"
  unfolding calls_M_def
  by (induction bufs arbitrary: s) (simp_all add: all_equal_M_step)

text \<open>
  Claim C1. For each of the variants Orders, Trades and Modifications, and every
  sequence of \<^verbatim>\<open>loadMessages\<close> calls that starts from the freshly constructed decoder
  (with any window set), all columns of the decoder have the same length after every
  call.
\<close>

theorem columns_have_equal_length:
  "all_equal (lengths_O (calls_O bufs (setBoundaries lo hi new_Orders))) \<and>
   all_equal (lengths_T (calls_T bufs (setBoundaries lo hi new_Trades))) \<and>
   all_equal (lengths_M (calls_M bufs (setBoundaries lo hi new_Modifications)))"
proof (intro conjI)
  show "all_equal (lengths_O (calls_O bufs (setBoundaries lo hi new_Orders)))"
    by (rule all_equal_calls_O)
      (simp add: all_equal_def lengths_O_def setBoundaries_def new_Orders_def)
  show "all_equal (lengths_T (calls_T bufs (setBoundaries lo hi new_Trades)))"
    by (rule all_equal_calls_T)
      (simp_all add: all_equal_def lengths_T_def setBoundaries_def new_Trades_def)
  show "all_equal (lengths_M (calls_M bufs (setBoundaries lo hi new_Modifications)))"
    by (rule all_equal_calls_M)
      (simp_all add: all_equal_def lengths_M_def setBoundaries_def new_Modifications_def)
qed

section \<open>The window\<close>

lemma appended_snoc [simp]: "appended xs (xs @ [x])"
  by (simp add: appended_def)

lemma not_appended_same [simp]: "\<not> appended xs xs"
  by (cases xs rule: rev_cases) (simp_all add: appended_def)

lemma valid_Trades_cases:
  assumes "validTypes s = validTypes new_Trades" and "buf 0 \<in> set (validTypes s)"
  obtains "buf 0 = chr CHR ''P''" | "buf 0 = chr CHR ''Q''" | "buf 0 = chr CHR ''B''"
  using assms by (auto simp add: new_Trades_def)

lemma valid_Modifications_cases:
  assumes "validTypes s = validTypes new_Modifications" and "buf 0 \<in> set (validTypes s)"
  obtains "buf 0 = chr CHR ''E''" | "buf 0 = chr CHR ''C''" | "buf 0 = chr CHR ''X''"
    | "buf 0 = chr CHR ''D''" | "buf 0 = chr CHR ''U''"
  using assms by (auto simp add: new_Modifications_def)


lemma not_in_window_before: "messageCount s < startMsgCount s \<Longrightarrow> \<not> in_window s"
  by (auto simp add: in_window_def)

lemma not_in_window_after: "endMsgCount s < messageCount s \<Longrightarrow> \<not> in_window s"
  by (auto simp add: in_window_def)

lemma window_cases:
  obtains (before) "messageCount s < startMsgCount s"
  | (after) "startMsgCount s \<le> messageCount s" "endMsgCount s < messageCount s"
  | (inside) "startMsgCount s \<le> messageCount s" "messageCount s \<le> endMsgCount s"
  by (meson not_less)

lemma loadMessages_O_before:
  "buf 0 \<in> set (validTypes s) \<Longrightarrow> messageCount s < startMsgCount s \<Longrightarrow>
   loadMessages_O buf s = (True, s\<lparr>messageCount := messageCount s + 1\<rparr>)"
  by (simp add: loadMessages_O_def rightMessage_iff)

lemma loadMessages_O_after:
  "buf 0 \<in> set (validTypes s) \<Longrightarrow> startMsgCount s \<le> messageCount s \<Longrightarrow>
   endMsgCount s < messageCount s \<Longrightarrow> loadMessages_O buf s = (False, s)"
  by (simp add: loadMessages_O_def rightMessage_iff not_less)

lemma loadMessages_O_inside:
  assumes "buf 0 \<in> set (validTypes s)" and "in_window s"
  shows "loadMessages_O buf s = (True, s\<lparr>
        type_O := type_O s @ [buf 0],
        locateCode_O := locateCode_O s @ [get2bytes (offs buf 1)],
        trackingNumber_O := trackingNumber_O s @ [get2bytes (offs buf 3)],
        timestamp_O := timestamp_O s @ [get6bytes (offs buf 5)],
        orderRef_O := orderRef_O s @ [get8bytes (offs buf 11)],
        buy_O := buy_O s @ [buf 19 = chr CHR ''B''],
        shares_O := shares_O s @ [get4bytes (offs buf 20)],
        stock_O := stock_O s @ [read_string buf 24 8],
        price_O := price_O s @ [double_div (double_of_uint (get4bytes (offs buf 32))) 10000],
        mpid_O := mpid_O s @ [if buf 0 = chr CHR ''F'' then read_string buf 36 4 else []],
        messageCount := messageCount s + 1\<rparr>)"
proof -
  from assms(2) have "\<not> messageCount s < startMsgCount s" "\<not> endMsgCount s < messageCount s"
    by (simp_all add: in_window_def not_less)
  with assms(1) show ?thesis
    by (simp add: loadMessages_O_def rightMessage_iff)
qed

lemma retained_O:
  assumes "buf 0 \<in> set (validTypes s)"
  shows "row_appended_O s (snd (loadMessages_O buf s)) \<longleftrightarrow> in_window s"
    and "\<not> in_window s \<Longrightarrow> columns_unchanged_O s (snd (loadMessages_O buf s))"
proof -
  show "row_appended_O s (snd (loadMessages_O buf s)) \<longleftrightarrow> in_window s"
  proof (cases s rule: window_cases)
    case before
    then show ?thesis
      by (simp add: loadMessages_O_before [of buf s, OF assms] not_in_window_before
          row_appended_O_def)
  next
    case after
    then show ?thesis
      by (simp add: loadMessages_O_after [of buf s, OF assms] not_in_window_after
          row_appended_O_def)
  next
    case inside
    then have w: "in_window s" by (simp add: in_window_def)
    show ?thesis
      by (simp add: loadMessages_O_inside [of buf s, OF assms w] w row_appended_O_def)
  qed
  show "columns_unchanged_O s (snd (loadMessages_O buf s))" if "\<not> in_window s"
  proof (cases s rule: window_cases)
    case before
    then show ?thesis
      by (simp add: loadMessages_O_before [of buf s, OF assms] columns_unchanged_O_def)
  next
    case after
    then show ?thesis
      by (simp add: loadMessages_O_after [of buf s, OF assms] columns_unchanged_O_def)
  next
    case inside
    with that show ?thesis by (simp add: in_window_def)
  qed
qed

lemma messageCount_switch_T [simp]: "messageCount (switch_T buf s) = messageCount s"
  by (simp add: switch_T_def)

lemma messageCount_switch_M [simp]: "messageCount (switch_M buf s) = messageCount s"
  by (simp add: switch_M_def)

lemma loadMessages_T_before:
  "buf 0 \<in> set (validTypes s) \<Longrightarrow> messageCount s < startMsgCount s \<Longrightarrow>
   loadMessages_T buf s = (True, s\<lparr>messageCount := messageCount s + 1\<rparr>)"
  by (simp add: loadMessages_T_def rightMessage_iff)

lemma loadMessages_T_after:
  "buf 0 \<in> set (validTypes s) \<Longrightarrow> startMsgCount s \<le> messageCount s \<Longrightarrow>
   endMsgCount s < messageCount s \<Longrightarrow> loadMessages_T buf s = (False, s)"
  by (simp add: loadMessages_T_def rightMessage_iff not_less)

lemma loadMessages_T_inside:
  assumes "buf 0 \<in> set (validTypes s)" and "in_window s"
  shows "loadMessages_T buf s =
    (True, (switch_T buf (s\<lparr>
        type_T := type_T s @ [buf 0],
        locateCode_T := locateCode_T s @ [get2bytes (offs buf 1)],
        trackingNumber_T := trackingNumber_T s @ [get2bytes (offs buf 3)],
        timestamp_T := timestamp_T s @ [get6bytes (offs buf 5)]\<rparr>))
      \<lparr>messageCount := messageCount s + 1\<rparr>)"
proof -
  from assms(2) have "\<not> messageCount s < startMsgCount s" "\<not> endMsgCount s < messageCount s"
    by (simp_all add: in_window_def not_less)
  with assms(1) show ?thesis
    by (simp add: loadMessages_T_def rightMessage_iff Let_def)
qed

lemma retained_T:
  assumes v: "validTypes s = validTypes new_Trades" and b: "buf 0 \<in> set (validTypes s)"
  shows "row_appended_T s (snd (loadMessages_T buf s)) \<longleftrightarrow> in_window s"
    and "\<not> in_window s \<Longrightarrow> columns_unchanged_T s (snd (loadMessages_T buf s))"
proof -
  show "row_appended_T s (snd (loadMessages_T buf s)) \<longleftrightarrow> in_window s"
  proof (cases s rule: window_cases)
    case before
    then show ?thesis
      by (simp add: loadMessages_T_before [of buf s, OF b] not_in_window_before
          row_appended_T_def)
  next
    case after
    then show ?thesis
      by (simp add: loadMessages_T_after [of buf s, OF b] not_in_window_after
          row_appended_T_def)
  next
    case inside
    then have w: "in_window s" by (simp add: in_window_def)
    from v b show ?thesis
      by (cases rule: valid_Trades_cases [where buf = buf])
        (simp_all add: loadMessages_T_inside [of buf s, OF b w] w row_appended_T_def
          switch_T_def chr_def)
  qed
  show "columns_unchanged_T s (snd (loadMessages_T buf s))" if "\<not> in_window s"
  proof (cases s rule: window_cases)
    case before
    then show ?thesis
      by (simp add: loadMessages_T_before [of buf s, OF b] columns_unchanged_T_def)
  next
    case after
    then show ?thesis
      by (simp add: loadMessages_T_after [of buf s, OF b] columns_unchanged_T_def)
  next
    case inside
    with that show ?thesis by (simp add: in_window_def)
  qed
qed

lemma loadMessages_M_before:
  "buf 0 \<in> set (validTypes s) \<Longrightarrow> messageCount s < startMsgCount s \<Longrightarrow>
   loadMessages_M buf s = (True, s\<lparr>messageCount := messageCount s + 1\<rparr>)"
  by (simp add: loadMessages_M_def rightMessage_iff)

lemma loadMessages_M_after:
  "buf 0 \<in> set (validTypes s) \<Longrightarrow> startMsgCount s \<le> messageCount s \<Longrightarrow>
   endMsgCount s < messageCount s \<Longrightarrow> loadMessages_M buf s = (False, s)"
  by (simp add: loadMessages_M_def rightMessage_iff not_less)

lemma loadMessages_M_inside:
  assumes "buf 0 \<in> set (validTypes s)" and "in_window s"
  shows "loadMessages_M buf s =
    (True, (switch_M buf (s\<lparr>
        type_M := type_M s @ [buf 0],
        locateCode_M := locateCode_M s @ [get2bytes (offs buf 1)],
        trackingNumber_M := trackingNumber_M s @ [get2bytes (offs buf 3)],
        timestamp_M := timestamp_M s @ [get6bytes (offs buf 5)],
        orderRef_M := orderRef_M s @ [get8bytes (offs buf 11)]\<rparr>))
      \<lparr>messageCount := messageCount s + 1\<rparr>)"
proof -
  from assms(2) have "\<not> messageCount s < startMsgCount s" "\<not> endMsgCount s < messageCount s"
    by (simp_all add: in_window_def not_less)
  with assms(1) show ?thesis
    by (simp add: loadMessages_M_def rightMessage_iff Let_def)
qed

lemma retained_M:
  assumes v: "validTypes s = validTypes new_Modifications" and b: "buf 0 \<in> set (validTypes s)"
  shows "row_appended_M s (snd (loadMessages_M buf s)) \<longleftrightarrow> in_window s"
    and "\<not> in_window s \<Longrightarrow> columns_unchanged_M s (snd (loadMessages_M buf s))"
proof -
  show "row_appended_M s (snd (loadMessages_M buf s)) \<longleftrightarrow> in_window s"
  proof (cases s rule: window_cases)
    case before
    then show ?thesis
      by (simp add: loadMessages_M_before [of buf s, OF b] not_in_window_before
          row_appended_M_def)
  next
    case after
    then show ?thesis
      by (simp add: loadMessages_M_after [of buf s, OF b] not_in_window_after
          row_appended_M_def)
  next
    case inside
    then have w: "in_window s" by (simp add: in_window_def)
    from v b show ?thesis
      by (cases rule: valid_Modifications_cases [where buf = buf])
        (simp_all add: loadMessages_M_inside [of buf s, OF b w] w row_appended_M_def
          switch_M_def chr_def)
  qed
  show "columns_unchanged_M s (snd (loadMessages_M buf s))" if "\<not> in_window s"
  proof (cases s rule: window_cases)
    case before
    then show ?thesis
      by (simp add: loadMessages_M_before [of buf s, OF b] columns_unchanged_M_def)
  next
    case after
    then show ?thesis
      by (simp add: loadMessages_M_after [of buf s, OF b] columns_unchanged_M_def)
  next
    case inside
    with that show ?thesis by (simp add: in_window_def)
  qed
qed

text \<open>The concrete frames and the decoders that accept them.\<close>

lemma frame_types:
  "order_frame symbol price 0 = chr CHR ''A''"
  "trade_frame 0 = chr CHR ''P''" "cross_frame 0 = chr CHR ''Q''"
  "broken_frame 0 = chr CHR ''B''" "executed_frame 0 = chr CHR ''E''"
  "executed_price_frame 0 = chr CHR ''C''" "cancel_frame 0 = chr CHR ''X''"
  "delete_frame 0 = chr CHR ''D''" "replace_frame 0 = chr CHR ''U''"
  by (simp_all add: order_frame_def trade_frame_def cross_frame_def broken_frame_def
      executed_frame_def executed_price_frame_def cancel_frame_def delete_frame_def
      replace_frame_def bytes_at_def)

lemma order_frame_valid: "order_frame symbol price 0 \<in> set (validTypes new_Orders)"
  by (simp add: frame_types new_Orders_def)

lemma trade_frame_valid: "trade_frame 0 \<in> set (validTypes new_Trades)"
  by (simp add: frame_types new_Trades_def)

lemma executed_frame_valid: "executed_frame 0 \<in> set (validTypes new_Modifications)"
  by (simp add: frame_types new_Modifications_def)

lemma frames_valid:
  "cross_frame 0 \<in> set (validTypes new_Trades)"
  "broken_frame 0 \<in> set (validTypes new_Trades)"
  "executed_price_frame 0 \<in> set (validTypes new_Modifications)"
  "cancel_frame 0 \<in> set (validTypes new_Modifications)"
  "delete_frame 0 \<in> set (validTypes new_Modifications)"
  "replace_frame 0 \<in> set (validTypes new_Modifications)"
  by (simp_all add: frame_types new_Trades_def new_Modifications_def)

lemma in_window_new:
  "in_window new_Orders" "in_window new_Trades" "in_window new_Modifications"
  by (simp_all add: in_window_def new_Orders_def new_Trades_def new_Modifications_def)

lemma bounds_loadMessages_O [simp]:
  "startMsgCount (snd (loadMessages_O buf s)) = startMsgCount s"
  "endMsgCount (snd (loadMessages_O buf s)) = endMsgCount s"
  by (simp_all add: loadMessages_O_def)

lemma bounds_loadMessages_T [simp]:
  "startMsgCount (snd (loadMessages_T buf s)) = startMsgCount s"
  "endMsgCount (snd (loadMessages_T buf s)) = endMsgCount s"
  by (simp_all add: loadMessages_T_def switch_T_def Let_def)

lemma bounds_loadMessages_M [simp]:
  "startMsgCount (snd (loadMessages_M buf s)) = startMsgCount s"
  "endMsgCount (snd (loadMessages_M buf s)) = endMsgCount s"
  by (simp_all add: loadMessages_M_def switch_M_def Let_def)

lemma setBoundaries_simps [simp]:
  "startMsgCount (setBoundaries a b s) = a"
  "endMsgCount (setBoundaries a b s) = b"
  "messageCount (setBoundaries a b s) = messageCount s"
  "validTypes (setBoundaries a b s) = validTypes s"
  by (simp_all add: setBoundaries_def)

lemma messageCount_new [simp]:
  "messageCount new_Orders = 0" "messageCount new_Trades = 0"
  "messageCount new_Modifications = 0"
  by (simp_all add: new_Orders_def new_Trades_def new_Modifications_def)

lemma early_simps:
  "validTypes early_Orders = validTypes new_Orders" "messageCount early_Orders = 0"
  "startMsgCount early_Orders = 1" "endMsgCount early_Orders = 2"
  "validTypes early_Trades = validTypes new_Trades" "messageCount early_Trades = 0"
  "startMsgCount early_Trades = 1" "endMsgCount early_Trades = 2"
  "validTypes early_Modifications = validTypes new_Modifications"
  "messageCount early_Modifications = 0"
  "startMsgCount early_Modifications = 1" "endMsgCount early_Modifications = 2"
  by (simp_all add: early_Orders_def early_Trades_def early_Modifications_def)

lemma not_in_window_early:
  "\<not> in_window early_Orders" "\<not> in_window early_Trades" "\<not> in_window early_Modifications"
  by (simp_all add: in_window_def early_simps)

lemma open_Orders_eq: "open_Orders = early_Orders\<lparr>messageCount := 1\<rparr>"
  using loadMessages_O_before [of "order_frame ''MSFT    '' [0, 22, 227, 96]" early_Orders]
  by (simp add: open_Orders_def early_simps order_frame_valid)

lemma open_Trades_eq: "open_Trades = early_Trades\<lparr>messageCount := 1\<rparr>"
  using loadMessages_T_before [of trade_frame early_Trades]
  by (simp add: open_Trades_def early_simps trade_frame_valid)

lemma open_Modifications_eq: "open_Modifications = early_Modifications\<lparr>messageCount := 1\<rparr>"
  using loadMessages_M_before [of executed_frame early_Modifications]
  by (simp add: open_Modifications_def early_simps executed_frame_valid)

lemma open_simps:
  "validTypes open_Orders = validTypes new_Orders" "messageCount open_Orders = 1"
  "startMsgCount open_Orders = 1" "endMsgCount open_Orders = 2"
  "validTypes open_Trades = validTypes new_Trades" "messageCount open_Trades = 1"
  "startMsgCount open_Trades = 1" "endMsgCount open_Trades = 2"
  "validTypes open_Modifications = validTypes new_Modifications"
  "messageCount open_Modifications = 1"
  "startMsgCount open_Modifications = 1" "endMsgCount open_Modifications = 2"
  by (simp_all add: open_Orders_eq open_Trades_eq open_Modifications_eq early_simps)

lemma in_window_open:
  "in_window open_Orders" "in_window open_Trades" "in_window open_Modifications"
  by (simp_all add: in_window_def open_simps)

lemma open_columns:
  "shares_O open_Orders = []" "stock_O open_Orders = []" "price_O open_Orders = []"
  "orderRef_T open_Trades = []" "shares_T open_Trades = []" "stock_T open_Trades = []"
  "matchNumber_T open_Trades = []" "crossType_T open_Trades = []"
  "shares_M open_Modifications = []" "matchNumber_M open_Modifications = []"
  "printable_M open_Modifications = []" "newOrderRef_M open_Modifications = []"
  by (simp_all add: open_Orders_eq open_Trades_eq open_Modifications_eq early_Orders_def
      early_Trades_def early_Modifications_def setBoundaries_def new_Orders_def new_Trades_def
      new_Modifications_def)

lemma retained_generic:
  "(bufO 0 \<in> set (validTypes sO) \<longrightarrow>
      (row_appended_O sO (snd (loadMessages_O bufO sO)) \<longleftrightarrow> in_window sO) \<and>
      (in_window sO \<longrightarrow> snd (loadMessages_O bufO sO) = sO\<lparr>
          type_O := type_O sO @ [bufO 0],
          locateCode_O := locateCode_O sO @ [get2bytes (offs bufO 1)],
          trackingNumber_O := trackingNumber_O sO @ [get2bytes (offs bufO 3)],
          timestamp_O := timestamp_O sO @ [get6bytes (offs bufO 5)],
          orderRef_O := orderRef_O sO @ [get8bytes (offs bufO 11)],
          buy_O := buy_O sO @ [bufO 19 = chr CHR ''B''],
          shares_O := shares_O sO @ [get4bytes (offs bufO 20)],
          stock_O := stock_O sO @ [read_string bufO 24 8],
          price_O := price_O sO @
            [double_div (double_of_uint (get4bytes (offs bufO 32))) 10000],
          mpid_O := mpid_O sO @
            [if bufO 0 = chr CHR ''F'' then read_string bufO 36 4 else []],
          messageCount := messageCount sO + 1\<rparr>) \<and>
      (\<not> in_window sO \<longrightarrow> columns_unchanged_O sO (snd (loadMessages_O bufO sO)))) \<and>
   (validTypes sT = validTypes new_Trades \<and> bufT 0 \<in> set (validTypes sT) \<longrightarrow>
      (row_appended_T sT (snd (loadMessages_T bufT sT)) \<longleftrightarrow> in_window sT) \<and>
      (\<not> in_window sT \<longrightarrow> columns_unchanged_T sT (snd (loadMessages_T bufT sT)))) \<and>
   (validTypes sM = validTypes new_Modifications \<and> bufM 0 \<in> set (validTypes sM) \<longrightarrow>
      (row_appended_M sM (snd (loadMessages_M bufM sM)) \<longleftrightarrow> in_window sM) \<and>
      (\<not> in_window sM \<longrightarrow> columns_unchanged_M sM (snd (loadMessages_M bufM sM))))"
proof (intro conjI impI)
  assume b: "bufO 0 \<in> set (validTypes sO)"
  then show "row_appended_O sO (snd (loadMessages_O bufO sO)) \<longleftrightarrow> in_window sO"
    by (rule retained_O(1))
  show "columns_unchanged_O sO (snd (loadMessages_O bufO sO))" if "\<not> in_window sO"
    using b that by (rule retained_O(2))
  show "snd (loadMessages_O bufO sO) = sO\<lparr>
          type_O := type_O sO @ [bufO 0],
          locateCode_O := locateCode_O sO @ [get2bytes (offs bufO 1)],
          trackingNumber_O := trackingNumber_O sO @ [get2bytes (offs bufO 3)],
          timestamp_O := timestamp_O sO @ [get6bytes (offs bufO 5)],
          orderRef_O := orderRef_O sO @ [get8bytes (offs bufO 11)],
          buy_O := buy_O sO @ [bufO 19 = chr CHR ''B''],
          shares_O := shares_O sO @ [get4bytes (offs bufO 20)],
          stock_O := stock_O sO @ [read_string bufO 24 8],
          price_O := price_O sO @
            [double_div (double_of_uint (get4bytes (offs bufO 32))) 10000],
          mpid_O := mpid_O sO @
            [if bufO 0 = chr CHR ''F'' then read_string bufO 36 4 else []],
          messageCount := messageCount sO + 1\<rparr>" if "in_window sO"
    using loadMessages_O_inside [of bufO sO, OF b that] by (simp only: snd_conv)
next
  assume "validTypes sT = validTypes new_Trades \<and> bufT 0 \<in> set (validTypes sT)"
  then have v: "validTypes sT = validTypes new_Trades" and b: "bufT 0 \<in> set (validTypes sT)"
    by blast+
  show "row_appended_T sT (snd (loadMessages_T bufT sT)) \<longleftrightarrow> in_window sT"
    using v b by (rule retained_T(1))
  show "columns_unchanged_T sT (snd (loadMessages_T bufT sT))" if "\<not> in_window sT"
    using v b that by (rule retained_T(2))
next
  assume "validTypes sM = validTypes new_Modifications \<and> bufM 0 \<in> set (validTypes sM)"
  then have v: "validTypes sM = validTypes new_Modifications"
    and b: "bufM 0 \<in> set (validTypes sM)"
    by blast+
  show "row_appended_M sM (snd (loadMessages_M bufM sM)) \<longleftrightarrow> in_window sM"
    using v b by (rule retained_M(1))
  show "columns_unchanged_M sM (snd (loadMessages_M bufM sM))" if "\<not> in_window sM"
    using v b that by (rule retained_M(2))
qed


lemma row_P:
  assumes "buf 0 = chr CHR ''P''" and "buf 0 \<in> set (validTypes s)" and "in_window s"
  shows "snd (loadMessages_T buf s) = s\<lparr>
      type_T := type_T s @ [buf 0],
      locateCode_T := locateCode_T s @ [get2bytes (offs buf 1)],
      trackingNumber_T := trackingNumber_T s @ [get2bytes (offs buf 3)],
      timestamp_T := timestamp_T s @ [get6bytes (offs buf 5)],
      orderRef_T := orderRef_T s @ [get8bytes (offs buf 11)],
      buy_T := buy_T s @ [buf 19 = chr CHR ''B''],
      shares_T := shares_T s @ [get4bytes (offs buf 20)],
      stock_T := stock_T s @ [read_string buf 24 8],
      price_T := price_T s @ [double_div (double_of_uint (get4bytes (offs buf 32))) 10000],
      matchNumber_T := matchNumber_T s @ [get8bytes (offs buf 36)],
      crossType_T := crossType_T s @ [chr CHR '' ''],
      messageCount := messageCount s + 1\<rparr>"
  using assms by (simp add: loadMessages_T_inside switch_T_def chr_def)

lemma row_Q:
  assumes "buf 0 = chr CHR ''Q''" and "buf 0 \<in> set (validTypes s)" and "in_window s"
  shows "snd (loadMessages_T buf s) = s\<lparr>
      type_T := type_T s @ [buf 0],
      locateCode_T := locateCode_T s @ [get2bytes (offs buf 1)],
      trackingNumber_T := trackingNumber_T s @ [get2bytes (offs buf 3)],
      timestamp_T := timestamp_T s @ [get6bytes (offs buf 5)],
      orderRef_T := orderRef_T s @ [0],
      buy_T := buy_T s @ [False],
      shares_T := shares_T s @ [get4bytes (offs buf 11)],
      stock_T := stock_T s @ [read_string buf 19 8],
      price_T := price_T s @ [double_div (double_of_uint (get4bytes (offs buf 27))) 10000],
      matchNumber_T := matchNumber_T s @ [get8bytes (offs buf 31)],
      crossType_T := crossType_T s @ [buf 39],
      messageCount := messageCount s + 1\<rparr>"
  using assms by (simp add: loadMessages_T_inside switch_T_def chr_def)

lemma row_B:
  assumes "buf 0 = chr CHR ''B''" and "buf 0 \<in> set (validTypes s)" and "in_window s"
  shows "snd (loadMessages_T buf s) = s\<lparr>
      type_T := type_T s @ [buf 0],
      locateCode_T := locateCode_T s @ [get2bytes (offs buf 1)],
      trackingNumber_T := trackingNumber_T s @ [get2bytes (offs buf 3)],
      timestamp_T := timestamp_T s @ [get6bytes (offs buf 5)],
      orderRef_T := orderRef_T s @ [0],
      buy_T := buy_T s @ [False],
      shares_T := shares_T s @ [0],
      stock_T := stock_T s @ [[]],
      price_T := price_T s @ [0],
      matchNumber_T := matchNumber_T s @ [get8bytes (offs buf 11)],
      crossType_T := crossType_T s @ [chr CHR '' ''],
      messageCount := messageCount s + 1\<rparr>"
  using assms by (simp add: loadMessages_T_inside switch_T_def chr_def)

lemma row_E:
  assumes "buf 0 = chr CHR ''E''" and "buf 0 \<in> set (validTypes s)" and "in_window s"
  shows "snd (loadMessages_M buf s) = s\<lparr>
      type_M := type_M s @ [buf 0],
      locateCode_M := locateCode_M s @ [get2bytes (offs buf 1)],
      trackingNumber_M := trackingNumber_M s @ [get2bytes (offs buf 3)],
      timestamp_M := timestamp_M s @ [get6bytes (offs buf 5)],
      orderRef_M := orderRef_M s @ [get8bytes (offs buf 11)],
      shares_M := shares_M s @ [get4bytes (offs buf 19)],
      matchNumber_M := matchNumber_M s @ [get8bytes (offs buf 23)],
      printable_M := printable_M s @ [CharValue (chr CHR ''N'')],
      price_M := price_M s @ [0],
      newOrderRef_M := newOrderRef_M s @ [0],
      messageCount := messageCount s + 1\<rparr>"
  using assms by (simp add: loadMessages_M_inside switch_M_def chr_def)

lemma row_C:
  assumes "buf 0 = chr CHR ''C''" and "buf 0 \<in> set (validTypes s)" and "in_window s"
  shows "snd (loadMessages_M buf s) = s\<lparr>
      type_M := type_M s @ [buf 0],
      locateCode_M := locateCode_M s @ [get2bytes (offs buf 1)],
      trackingNumber_M := trackingNumber_M s @ [get2bytes (offs buf 3)],
      timestamp_M := timestamp_M s @ [get6bytes (offs buf 5)],
      orderRef_M := orderRef_M s @ [get8bytes (offs buf 11)],
      shares_M := shares_M s @ [get4bytes (offs buf 19)],
      matchNumber_M := matchNumber_M s @ [get8bytes (offs buf 23)],
      printable_M := printable_M s @ [CharValue (buf 31)],
      price_M := price_M s @ [double_div (double_of_uint (get4bytes (offs buf 32))) 10000],
      newOrderRef_M := newOrderRef_M s @ [0],
      messageCount := messageCount s + 1\<rparr>"
  using assms by (simp add: loadMessages_M_inside switch_M_def chr_def)

lemma row_X:
  assumes "buf 0 = chr CHR ''X''" and "buf 0 \<in> set (validTypes s)" and "in_window s"
  shows "snd (loadMessages_M buf s) = s\<lparr>
      type_M := type_M s @ [buf 0],
      locateCode_M := locateCode_M s @ [get2bytes (offs buf 1)],
      trackingNumber_M := trackingNumber_M s @ [get2bytes (offs buf 3)],
      timestamp_M := timestamp_M s @ [get6bytes (offs buf 5)],
      orderRef_M := orderRef_M s @ [get8bytes (offs buf 11)],
      shares_M := shares_M s @ [get4bytes (offs buf 19)],
      matchNumber_M := matchNumber_M s @ [0],
      printable_M := printable_M s @ [BoolValue False],
      price_M := price_M s @ [0],
      newOrderRef_M := newOrderRef_M s @ [0],
      messageCount := messageCount s + 1\<rparr>"
  using assms by (simp add: loadMessages_M_inside switch_M_def chr_def)

lemma row_D:
  assumes "buf 0 = chr CHR ''D''" and "buf 0 \<in> set (validTypes s)" and "in_window s"
  shows "snd (loadMessages_M buf s) = s\<lparr>
      type_M := type_M s @ [buf 0],
      locateCode_M := locateCode_M s @ [get2bytes (offs buf 1)],
      trackingNumber_M := trackingNumber_M s @ [get2bytes (offs buf 3)],
      timestamp_M := timestamp_M s @ [get6bytes (offs buf 5)],
      orderRef_M := orderRef_M s @ [get8bytes (offs buf 11)],
      shares_M := shares_M s @ [0],
      matchNumber_M := matchNumber_M s @ [0],
      printable_M := printable_M s @ [BoolValue False],
      price_M := price_M s @ [0],
      newOrderRef_M := newOrderRef_M s @ [0],
      messageCount := messageCount s + 1\<rparr>"
  using assms by (simp add: loadMessages_M_inside switch_M_def chr_def)

lemma row_U:
  assumes "buf 0 = chr CHR ''U''" and "buf 0 \<in> set (validTypes s)" and "in_window s"
  shows "snd (loadMessages_M buf s) = s\<lparr>
      type_M := type_M s @ [buf 0],
      locateCode_M := locateCode_M s @ [get2bytes (offs buf 1)],
      trackingNumber_M := trackingNumber_M s @ [get2bytes (offs buf 3)],
      timestamp_M := timestamp_M s @ [get6bytes (offs buf 5)],
      orderRef_M := orderRef_M s @ [get8bytes (offs buf 11)],
      shares_M := shares_M s @ [get4bytes (offs buf 27)],
      matchNumber_M := matchNumber_M s @ [0],
      printable_M := printable_M s @ [BoolValue False],
      price_M := price_M s @ [double_div (double_of_uint (get4bytes (offs buf 31))) 10000],
      newOrderRef_M := newOrderRef_M s @ [get8bytes (offs buf 19)],
      messageCount := messageCount s + 1\<rparr>"
  using assms by (simp add: loadMessages_M_inside switch_M_def chr_def)

text \<open>
  Claim C2. For every \<^verbatim>\<open>loadMessages\<close> call on a frame whose type byte is in the
  \<open>validTypes\<close> of the variant, the fields of the frame are appended to the columns
  if and only if the \<open>messageCount\<close> at the time of the call satisfies
  \<open>startMsgCount \<le> messageCount \<le> endMsgCount\<close>; otherwise no column changes. The
  appended fields are given one by one: for Orders, for the Trades types \<^verbatim>\<open>'P'\<close>,
  \<^verbatim>\<open>'Q'\<close>, \<^verbatim>\<open>'B'\<close> and for the Modifications types \<^verbatim>\<open>'E'\<close>, \<^verbatim>\<open>'C'\<close>,
  \<^verbatim>\<open>'X'\<close>, \<^verbatim>\<open>'D'\<close>, \<^verbatim>\<open>'U'\<close>. In the equivalence for Trades and
  Modifications \<open>validTypes\<close> is the list set by the constructor.
\<close>

theorem retained_iff_in_window:
  "(bufO 0 \<in> set (validTypes sO) \<longrightarrow>
      (row_appended_O sO (snd (loadMessages_O bufO sO)) \<longleftrightarrow> in_window sO) \<and>
      (in_window sO \<longrightarrow> snd (loadMessages_O bufO sO) = sO\<lparr>
          type_O := type_O sO @ [bufO 0],
          locateCode_O := locateCode_O sO @ [get2bytes (offs bufO 1)],
          trackingNumber_O := trackingNumber_O sO @ [get2bytes (offs bufO 3)],
          timestamp_O := timestamp_O sO @ [get6bytes (offs bufO 5)],
          orderRef_O := orderRef_O sO @ [get8bytes (offs bufO 11)],
          buy_O := buy_O sO @ [bufO 19 = chr CHR ''B''],
          shares_O := shares_O sO @ [get4bytes (offs bufO 20)],
          stock_O := stock_O sO @ [read_string bufO 24 8],
          price_O := price_O sO @
            [double_div (double_of_uint (get4bytes (offs bufO 32))) 10000],
          mpid_O := mpid_O sO @
            [if bufO 0 = chr CHR ''F'' then read_string bufO 36 4 else []],
          messageCount := messageCount sO + 1\<rparr>) \<and>
      (\<not> in_window sO \<longrightarrow> columns_unchanged_O sO (snd (loadMessages_O bufO sO)))) \<and>
   (validTypes sT = validTypes new_Trades \<and> bufT 0 \<in> set (validTypes sT) \<longrightarrow>
      (row_appended_T sT (snd (loadMessages_T bufT sT)) \<longleftrightarrow> in_window sT) \<and>
      (\<not> in_window sT \<longrightarrow> columns_unchanged_T sT (snd (loadMessages_T bufT sT)))) \<and>
   (validTypes sM = validTypes new_Modifications \<and> bufM 0 \<in> set (validTypes sM) \<longrightarrow>
      (row_appended_M sM (snd (loadMessages_M bufM sM)) \<longleftrightarrow> in_window sM) \<and>
      (\<not> in_window sM \<longrightarrow> columns_unchanged_M sM (snd (loadMessages_M bufM sM)))) \<and>
   (bufP 0 = chr CHR ''P'' \<and> bufP 0 \<in> set (validTypes sP) \<and> in_window sP \<longrightarrow>
      snd (loadMessages_T bufP sP) = sP\<lparr>
          type_T := type_T sP @ [bufP 0],
          locateCode_T := locateCode_T sP @ [get2bytes (offs bufP 1)],
          trackingNumber_T := trackingNumber_T sP @ [get2bytes (offs bufP 3)],
          timestamp_T := timestamp_T sP @ [get6bytes (offs bufP 5)],
          orderRef_T := orderRef_T sP @ [get8bytes (offs bufP 11)],
          buy_T := buy_T sP @ [bufP 19 = chr CHR ''B''],
          shares_T := shares_T sP @ [get4bytes (offs bufP 20)],
          stock_T := stock_T sP @ [read_string bufP 24 8],
          price_T := price_T sP @ [double_div (double_of_uint (get4bytes (offs bufP 32))) 10000],
          matchNumber_T := matchNumber_T sP @ [get8bytes (offs bufP 36)],
          crossType_T := crossType_T sP @ [chr CHR '' ''],
          messageCount := messageCount sP + 1\<rparr>) \<and>
   (bufQ 0 = chr CHR ''Q'' \<and> bufQ 0 \<in> set (validTypes sQ) \<and> in_window sQ \<longrightarrow>
      snd (loadMessages_T bufQ sQ) = sQ\<lparr>
          type_T := type_T sQ @ [bufQ 0],
          locateCode_T := locateCode_T sQ @ [get2bytes (offs bufQ 1)],
          trackingNumber_T := trackingNumber_T sQ @ [get2bytes (offs bufQ 3)],
          timestamp_T := timestamp_T sQ @ [get6bytes (offs bufQ 5)],
          orderRef_T := orderRef_T sQ @ [0],
          buy_T := buy_T sQ @ [False],
          shares_T := shares_T sQ @ [get4bytes (offs bufQ 11)],
          stock_T := stock_T sQ @ [read_string bufQ 19 8],
          price_T := price_T sQ @ [double_div (double_of_uint (get4bytes (offs bufQ 27))) 10000],
          matchNumber_T := matchNumber_T sQ @ [get8bytes (offs bufQ 31)],
          crossType_T := crossType_T sQ @ [bufQ 39],
          messageCount := messageCount sQ + 1\<rparr>) \<and>
   (bufB 0 = chr CHR ''B'' \<and> bufB 0 \<in> set (validTypes sB) \<and> in_window sB \<longrightarrow>
      snd (loadMessages_T bufB sB) = sB\<lparr>
          type_T := type_T sB @ [bufB 0],
          locateCode_T := locateCode_T sB @ [get2bytes (offs bufB 1)],
          trackingNumber_T := trackingNumber_T sB @ [get2bytes (offs bufB 3)],
          timestamp_T := timestamp_T sB @ [get6bytes (offs bufB 5)],
          orderRef_T := orderRef_T sB @ [0],
          buy_T := buy_T sB @ [False],
          shares_T := shares_T sB @ [0],
          stock_T := stock_T sB @ [[]],
          price_T := price_T sB @ [0],
          matchNumber_T := matchNumber_T sB @ [get8bytes (offs bufB 11)],
          crossType_T := crossType_T sB @ [chr CHR '' ''],
          messageCount := messageCount sB + 1\<rparr>) \<and>
   (bufE 0 = chr CHR ''E'' \<and> bufE 0 \<in> set (validTypes sE) \<and> in_window sE \<longrightarrow>
      snd (loadMessages_M bufE sE) = sE\<lparr>
          type_M := type_M sE @ [bufE 0],
          locateCode_M := locateCode_M sE @ [get2bytes (offs bufE 1)],
          trackingNumber_M := trackingNumber_M sE @ [get2bytes (offs bufE 3)],
          timestamp_M := timestamp_M sE @ [get6bytes (offs bufE 5)],
          orderRef_M := orderRef_M sE @ [get8bytes (offs bufE 11)],
          shares_M := shares_M sE @ [get4bytes (offs bufE 19)],
          matchNumber_M := matchNumber_M sE @ [get8bytes (offs bufE 23)],
          printable_M := printable_M sE @ [CharValue (chr CHR ''N'')],
          price_M := price_M sE @ [0],
          newOrderRef_M := newOrderRef_M sE @ [0],
          messageCount := messageCount sE + 1\<rparr>) \<and>
   (bufC 0 = chr CHR ''C'' \<and> bufC 0 \<in> set (validTypes sC) \<and> in_window sC \<longrightarrow>
      snd (loadMessages_M bufC sC) = sC\<lparr>
          type_M := type_M sC @ [bufC 0],
          locateCode_M := locateCode_M sC @ [get2bytes (offs bufC 1)],
          trackingNumber_M := trackingNumber_M sC @ [get2bytes (offs bufC 3)],
          timestamp_M := timestamp_M sC @ [get6bytes (offs bufC 5)],
          orderRef_M := orderRef_M sC @ [get8bytes (offs bufC 11)],
          shares_M := shares_M sC @ [get4bytes (offs bufC 19)],
          matchNumber_M := matchNumber_M sC @ [get8bytes (offs bufC 23)],
          printable_M := printable_M sC @ [CharValue (bufC 31)],
          price_M := price_M sC @ [double_div (double_of_uint (get4bytes (offs bufC 32))) 10000],
          newOrderRef_M := newOrderRef_M sC @ [0],
          messageCount := messageCount sC + 1\<rparr>) \<and>
   (bufX 0 = chr CHR ''X'' \<and> bufX 0 \<in> set (validTypes sX) \<and> in_window sX \<longrightarrow>
      snd (loadMessages_M bufX sX) = sX\<lparr>
          type_M := type_M sX @ [bufX 0],
          locateCode_M := locateCode_M sX @ [get2bytes (offs bufX 1)],
          trackingNumber_M := trackingNumber_M sX @ [get2bytes (offs bufX 3)],
          timestamp_M := timestamp_M sX @ [get6bytes (offs bufX 5)],
          orderRef_M := orderRef_M sX @ [get8bytes (offs bufX 11)],
          shares_M := shares_M sX @ [get4bytes (offs bufX 19)],
          matchNumber_M := matchNumber_M sX @ [0],
          printable_M := printable_M sX @ [BoolValue False],
          price_M := price_M sX @ [0],
          newOrderRef_M := newOrderRef_M sX @ [0],
          messageCount := messageCount sX + 1\<rparr>) \<and>
   (bufD 0 = chr CHR ''D'' \<and> bufD 0 \<in> set (validTypes sD) \<and> in_window sD \<longrightarrow>
      snd (loadMessages_M bufD sD) = sD\<lparr>
          type_M := type_M sD @ [bufD 0],
          locateCode_M := locateCode_M sD @ [get2bytes (offs bufD 1)],
          trackingNumber_M := trackingNumber_M sD @ [get2bytes (offs bufD 3)],
          timestamp_M := timestamp_M sD @ [get6bytes (offs bufD 5)],
          orderRef_M := orderRef_M sD @ [get8bytes (offs bufD 11)],
          shares_M := shares_M sD @ [0],
          matchNumber_M := matchNumber_M sD @ [0],
          printable_M := printable_M sD @ [BoolValue False],
          price_M := price_M sD @ [0],
          newOrderRef_M := newOrderRef_M sD @ [0],
          messageCount := messageCount sD + 1\<rparr>) \<and>
   (bufU 0 = chr CHR ''U'' \<and> bufU 0 \<in> set (validTypes sU) \<and> in_window sU \<longrightarrow>
      snd (loadMessages_M bufU sU) = sU\<lparr>
          type_M := type_M sU @ [bufU 0],
          locateCode_M := locateCode_M sU @ [get2bytes (offs bufU 1)],
          trackingNumber_M := trackingNumber_M sU @ [get2bytes (offs bufU 3)],
          timestamp_M := timestamp_M sU @ [get6bytes (offs bufU 5)],
          orderRef_M := orderRef_M sU @ [get8bytes (offs bufU 11)],
          shares_M := shares_M sU @ [get4bytes (offs bufU 27)],
          matchNumber_M := matchNumber_M sU @ [0],
          printable_M := printable_M sU @ [BoolValue False],
          price_M := price_M sU @ [double_div (double_of_uint (get4bytes (offs bufU 31))) 10000],
          newOrderRef_M := newOrderRef_M sU @ [get8bytes (offs bufU 19)],
          messageCount := messageCount sU + 1\<rparr>)"
proof -
  note g = retained_generic [of bufO sO sT bufT sM bufM]
  show ?thesis
    apply (intro conjI)
    subgoal by (rule g [THEN conjunct1])
    subgoal by (rule g [THEN conjunct2, THEN conjunct1])
    subgoal by (rule g [THEN conjunct2, THEN conjunct2])
    subgoal by (intro impI, elim conjE, rule row_P)
    subgoal by (intro impI, elim conjE, rule row_Q)
    subgoal by (intro impI, elim conjE, rule row_B)
    subgoal by (intro impI, elim conjE, rule row_E)
    subgoal by (intro impI, elim conjE, rule row_C)
    subgoal by (intro impI, elim conjE, rule row_X)
    subgoal by (intro impI, elim conjE, rule row_D)
    subgoal by (intro impI, elim conjE, rule row_U)
    done
qed

lemma field_order_frame_symbol:
  "length symbol = 8 \<Longrightarrow> field (order_frame symbol price) 24 8 = map chr symbol"
  by (rule nth_equalityI) (simp_all add: field_def order_frame_def bytes_at_def nth_append)

lemma read_string_order_frame:
  "read_string (order_frame ''AAPL    '' price) 24 8 = map chr ''AAPL''"
  "read_string (order_frame ''MSFT    '' price) 24 8 = map chr ''MSFT''"
  by (simp_all add: read_string_eq_filter field_order_frame_symbol white_def chr_def)

lemma frame_values:
  "get4bytes (offs (order_frame symbol price) 20) = 500"
  "get4bytes (offs trade_frame 20) = 500" "get8bytes (offs trade_frame 36) = 7"
  "get4bytes (offs cross_frame 11) = 500" "cross_frame 39 = chr CHR ''O''"
  "get8bytes (offs broken_frame 11) = 7"
  "get4bytes (offs executed_frame 19) = 500" "get8bytes (offs executed_frame 23) = 7"
  "executed_price_frame 31 = chr CHR ''Y''"
  "get4bytes (offs cancel_frame 19) = 500"
  "get8bytes (offs replace_frame 19) = 101" "get4bytes (offs replace_frame 27) = 500"
  by (simp_all add: get4bytes_def bswap32_def load32_def get8bytes_def bswap64_def load64_def
      offs_def order_frame_def trade_frame_def cross_frame_def broken_frame_def
      executed_frame_def executed_price_frame_def cancel_frame_def replace_frame_def
      bytes_at_def)

theorem retained_iff_in_window_witness:
  "order_frame ''AAPL    '' [0, 22, 227, 96] 0 \<in> set (validTypes open_Orders) \<and>
   in_window open_Orders \<and>
   row_appended_O open_Orders
     (snd (loadMessages_O (order_frame ''AAPL    '' [0, 22, 227, 96]) open_Orders)) \<and>
   shares_O (snd (loadMessages_O (order_frame ''AAPL    '' [0, 22, 227, 96]) open_Orders)) =
     [500] \<and>
   stock_O (snd (loadMessages_O (order_frame ''AAPL    '' [0, 22, 227, 96]) open_Orders)) =
     [map chr ''AAPL''] \<and>
   order_frame ''AAPL    '' [0, 22, 227, 96] 0 \<in> set (validTypes early_Orders) \<and>
   \<not> in_window early_Orders \<and>
   columns_unchanged_O early_Orders
     (snd (loadMessages_O (order_frame ''AAPL    '' [0, 22, 227, 96]) early_Orders)) \<and>
   validTypes open_Trades = validTypes new_Trades \<and>
   trade_frame 0 \<in> set (validTypes open_Trades) \<and> in_window open_Trades \<and>
   row_appended_T open_Trades (snd (loadMessages_T trade_frame open_Trades)) \<and>
   trade_frame 0 = chr CHR ''P'' \<and>
   shares_T (snd (loadMessages_T trade_frame open_Trades)) = [500] \<and>
   matchNumber_T (snd (loadMessages_T trade_frame open_Trades)) = [7] \<and>
   cross_frame 0 = chr CHR ''Q'' \<and> cross_frame 0 \<in> set (validTypes open_Trades) \<and>
   shares_T (snd (loadMessages_T cross_frame open_Trades)) = [500] \<and>
   crossType_T (snd (loadMessages_T cross_frame open_Trades)) = [chr CHR ''O''] \<and>
   broken_frame 0 = chr CHR ''B'' \<and> broken_frame 0 \<in> set (validTypes open_Trades) \<and>
   shares_T (snd (loadMessages_T broken_frame open_Trades)) = [0] \<and>
   matchNumber_T (snd (loadMessages_T broken_frame open_Trades)) = [7] \<and>
   validTypes open_Modifications = validTypes new_Modifications \<and>
   executed_frame 0 \<in> set (validTypes open_Modifications) \<and> in_window open_Modifications \<and>
   row_appended_M open_Modifications (snd (loadMessages_M executed_frame open_Modifications)) \<and>
   executed_frame 0 = chr CHR ''E'' \<and>
   shares_M (snd (loadMessages_M executed_frame open_Modifications)) = [500] \<and>
   matchNumber_M (snd (loadMessages_M executed_frame open_Modifications)) = [7] \<and>
   executed_price_frame 0 = chr CHR ''C'' \<and>
   executed_price_frame 0 \<in> set (validTypes open_Modifications) \<and>
   printable_M (snd (loadMessages_M executed_price_frame open_Modifications)) =
     [CharValue (chr CHR ''Y'')] \<and>
   cancel_frame 0 = chr CHR ''X'' \<and> cancel_frame 0 \<in> set (validTypes open_Modifications) \<and>
   shares_M (snd (loadMessages_M cancel_frame open_Modifications)) = [500] \<and>
   matchNumber_M (snd (loadMessages_M cancel_frame open_Modifications)) = [0] \<and>
   delete_frame 0 = chr CHR ''D'' \<and> delete_frame 0 \<in> set (validTypes open_Modifications) \<and>
   shares_M (snd (loadMessages_M delete_frame open_Modifications)) = [0] \<and>
   replace_frame 0 = chr CHR ''U'' \<and> replace_frame 0 \<in> set (validTypes open_Modifications) \<and>
   shares_M (snd (loadMessages_M replace_frame open_Modifications)) = [500] \<and>
   newOrderRef_M (snd (loadMessages_M replace_frame open_Modifications)) = [101]"
proof -
  let ?F = "order_frame ''AAPL    '' [0, 22, 227, 96]"
  note T = retained_iff_in_window [where bufO = ?F and sO = open_Orders
      and bufT = trade_frame and sT = open_Trades
      and bufM = executed_frame and sM = open_Modifications
      and bufP = trade_frame and sP = open_Trades and bufQ = cross_frame and sQ = open_Trades
      and bufB = broken_frame and sB = open_Trades
      and bufE = executed_frame and sE = open_Modifications
      and bufC = executed_price_frame and sC = open_Modifications
      and bufX = cancel_frame and sX = open_Modifications
      and bufD = delete_frame and sD = open_Modifications
      and bufU = replace_frame and sU = open_Modifications]
  note E = retained_iff_in_window [where bufO = ?F and sO = early_Orders]
  have vO: "?F 0 \<in> set (validTypes open_Orders)" "?F 0 \<in> set (validTypes early_Orders)"
    by (simp_all add: open_simps early_simps order_frame_valid)
  have vT: "trade_frame 0 \<in> set (validTypes open_Trades)"
    "cross_frame 0 \<in> set (validTypes open_Trades)"
    "broken_frame 0 \<in> set (validTypes open_Trades)"
    by (simp_all add: open_simps trade_frame_valid frames_valid)
  have vM: "executed_frame 0 \<in> set (validTypes open_Modifications)"
    "executed_price_frame 0 \<in> set (validTypes open_Modifications)"
    "cancel_frame 0 \<in> set (validTypes open_Modifications)"
    "delete_frame 0 \<in> set (validTypes open_Modifications)"
    "replace_frame 0 \<in> set (validTypes open_Modifications)"
    by (simp_all add: open_simps executed_frame_valid frames_valid)
  note w = in_window_open
  note O = T [THEN conjunct1, THEN mp, OF vO(1)]
  from O [THEN conjunct1] w(1)
  have o1: "row_appended_O open_Orders (snd (loadMessages_O ?F open_Orders))"
    by (rule iffD2)
  note eq_o = O [THEN conjunct2, THEN conjunct1, THEN mp, OF w(1)]
  have o2: "shares_O (snd (loadMessages_O ?F open_Orders)) = [500]"
    and o3: "stock_O (snd (loadMessages_O ?F open_Orders)) = [map chr ''AAPL'']"
    by (simp_all add: eq_o open_columns frame_values read_string_order_frame)
  note o4 = E [THEN conjunct1, THEN mp, OF vO(2), THEN conjunct2, THEN conjunct2, THEN mp,
      OF not_in_window_early(1)]
  from T [THEN conjunct2, THEN conjunct1, THEN mp, OF conjI [OF open_simps(5) vT(1)],
      THEN conjunct1] w(2)
  have t1: "row_appended_T open_Trades (snd (loadMessages_T trade_frame open_Trades))"
    by (rule iffD2)
  from T [THEN conjunct2, THEN conjunct2, THEN conjunct1, THEN mp,
      OF conjI [OF open_simps(9) vM(1)], THEN conjunct1] w(3)
  have m1: "row_appended_M open_Modifications
      (snd (loadMessages_M executed_frame open_Modifications))"
    by (rule iffD2)
  note eq_p = T [THEN conjunct2, THEN conjunct2, THEN conjunct2, THEN conjunct1, THEN mp,
      OF conjI [OF frame_types(2) conjI [OF vT(1) w(2)]]]
  have p: "shares_T (snd (loadMessages_T trade_frame open_Trades)) = [500]"
    "matchNumber_T (snd (loadMessages_T trade_frame open_Trades)) = [7]"
    by (simp_all add: eq_p open_columns frame_values)
  note eq_q = T [THEN conjunct2, THEN conjunct2, THEN conjunct2, THEN conjunct2,
      THEN conjunct1, THEN mp,
      OF conjI [OF frame_types(3) conjI [OF vT(2) w(2)]]]
  have q: "shares_T (snd (loadMessages_T cross_frame open_Trades)) = [500]"
    "crossType_T (snd (loadMessages_T cross_frame open_Trades)) = [chr CHR ''O'']"
    by (simp_all add: eq_q open_columns frame_values)
  note eq_b = T [THEN conjunct2, THEN conjunct2, THEN conjunct2, THEN conjunct2,
      THEN conjunct2, THEN conjunct1, THEN mp,
      OF conjI [OF frame_types(4) conjI [OF vT(3) w(2)]]]
  have b: "shares_T (snd (loadMessages_T broken_frame open_Trades)) = [0]"
    "matchNumber_T (snd (loadMessages_T broken_frame open_Trades)) = [7]"
    by (simp_all add: eq_b open_columns frame_values)
  note eq_e = T [THEN conjunct2, THEN conjunct2, THEN conjunct2, THEN conjunct2,
      THEN conjunct2, THEN conjunct2, THEN conjunct1, THEN mp,
      OF conjI [OF frame_types(5) conjI [OF vM(1) w(3)]]]
  have e: "shares_M (snd (loadMessages_M executed_frame open_Modifications)) = [500]"
    "matchNumber_M (snd (loadMessages_M executed_frame open_Modifications)) = [7]"
    by (simp_all add: eq_e open_columns frame_values)
  note eq_c = T [THEN conjunct2, THEN conjunct2, THEN conjunct2, THEN conjunct2,
      THEN conjunct2, THEN conjunct2, THEN conjunct2, THEN conjunct1, THEN mp,
      OF conjI [OF frame_types(6) conjI [OF vM(2) w(3)]]]
  have c: "printable_M (snd (loadMessages_M executed_price_frame open_Modifications)) =
      [CharValue (chr CHR ''Y'')]"
    by (simp_all add: eq_c open_columns frame_values)
  note eq_x = T [THEN conjunct2, THEN conjunct2, THEN conjunct2, THEN conjunct2,
      THEN conjunct2, THEN conjunct2, THEN conjunct2, THEN conjunct2,
      THEN conjunct1, THEN mp,
      OF conjI [OF frame_types(7) conjI [OF vM(3) w(3)]]]
  have x: "shares_M (snd (loadMessages_M cancel_frame open_Modifications)) = [500]"
    "matchNumber_M (snd (loadMessages_M cancel_frame open_Modifications)) = [0]"
    by (simp_all add: eq_x open_columns frame_values)
  note eq_d = T [THEN conjunct2, THEN conjunct2, THEN conjunct2, THEN conjunct2,
      THEN conjunct2, THEN conjunct2, THEN conjunct2, THEN conjunct2,
      THEN conjunct2, THEN conjunct1, THEN mp,
      OF conjI [OF frame_types(8) conjI [OF vM(4) w(3)]]]
  have d: "shares_M (snd (loadMessages_M delete_frame open_Modifications)) = [0]"
    by (simp_all add: eq_d open_columns frame_values)
  note eq_u = T [THEN conjunct2, THEN conjunct2, THEN conjunct2, THEN conjunct2,
      THEN conjunct2, THEN conjunct2, THEN conjunct2, THEN conjunct2,
      THEN conjunct2, THEN conjunct2, THEN mp,
      OF conjI [OF frame_types(9) conjI [OF vM(5) w(3)]]]
  have u: "shares_M (snd (loadMessages_M replace_frame open_Modifications)) = [500]"
    "newOrderRef_M (snd (loadMessages_M replace_frame open_Modifications)) = [101]"
    by (simp_all add: eq_u open_columns frame_values)
  show ?thesis
    by (intro conjI vO vT vM w o1 o2 o3 o4 t1 m1 p q b e c x d u not_in_window_early(1)
        open_simps(5) open_simps(9) frame_types)
qed

section \<open>The early exit\<close>

lemma loadMessages_O_other:
  "buf 0 \<notin> set (validTypes s) \<Longrightarrow> loadMessages_O buf s = (True, s)"
  by (simp add: loadMessages_O_def rightMessage_iff)

lemma loadMessages_T_other:
  "buf 0 \<notin> set (validTypes s) \<Longrightarrow> loadMessages_T buf s = (True, s)"
  by (simp add: loadMessages_T_def rightMessage_iff)

lemma loadMessages_M_other:
  "buf 0 \<notin> set (validTypes s) \<Longrightarrow> loadMessages_M buf s = (True, s)"
  by (simp add: loadMessages_M_def rightMessage_iff)

lemma returns_false_iff_O:
  "\<not> fst (loadMessages_O buf s) \<longleftrightarrow>
     buf 0 \<in> set (validTypes s) \<and> startMsgCount s \<le> messageCount s \<and>
     endMsgCount s < messageCount s"
proof (cases "buf 0 \<in> set (validTypes s)")
  case False
  then show ?thesis by (simp add: loadMessages_O_other)
next
  case True
  show ?thesis
  proof (cases s rule: window_cases)
    case before
    then show ?thesis by (simp add: loadMessages_O_before [of buf s, OF True] not_le)
  next
    case after
    then show ?thesis by (simp add: loadMessages_O_after [of buf s, OF True] True)
  next
    case inside
    then have "in_window s" by (simp add: in_window_def)
    with inside show ?thesis
      by (simp add: loadMessages_O_inside [of buf s, OF True] not_less)
  qed
qed

lemma returns_false_iff_T:
  "\<not> fst (loadMessages_T buf s) \<longleftrightarrow>
     buf 0 \<in> set (validTypes s) \<and> startMsgCount s \<le> messageCount s \<and>
     endMsgCount s < messageCount s"
proof (cases "buf 0 \<in> set (validTypes s)")
  case False
  then show ?thesis by (simp add: loadMessages_T_other)
next
  case True
  show ?thesis
  proof (cases s rule: window_cases)
    case before
    then show ?thesis by (simp add: loadMessages_T_before [of buf s, OF True] not_le)
  next
    case after
    then show ?thesis by (simp add: loadMessages_T_after [of buf s, OF True] True)
  next
    case inside
    then have "in_window s" by (simp add: in_window_def)
    with inside show ?thesis
      by (simp add: loadMessages_T_inside [of buf s, OF True] not_less)
  qed
qed

lemma returns_false_iff_M:
  "\<not> fst (loadMessages_M buf s) \<longleftrightarrow>
     buf 0 \<in> set (validTypes s) \<and> startMsgCount s \<le> messageCount s \<and>
     endMsgCount s < messageCount s"
proof (cases "buf 0 \<in> set (validTypes s)")
  case False
  then show ?thesis by (simp add: loadMessages_M_other)
next
  case True
  show ?thesis
  proof (cases s rule: window_cases)
    case before
    then show ?thesis by (simp add: loadMessages_M_before [of buf s, OF True] not_le)
  next
    case after
    then show ?thesis by (simp add: loadMessages_M_after [of buf s, OF True] True)
  next
    case inside
    then have "in_window s" by (simp add: in_window_def)
    with inside show ?thesis
      by (simp add: loadMessages_M_inside [of buf s, OF True] not_less)
  qed
qed

text \<open>Past the window every further call leaves the decoder as it is.\<close>

lemma past_window_O:
  assumes "startMsgCount s \<le> messageCount s" and "endMsgCount s < messageCount s"
  shows "snd (loadMessages_O buf s) = s"
  using assms by (cases "buf 0 \<in> set (validTypes s)")
    (simp_all add: loadMessages_O_other loadMessages_O_after)

lemma past_window_T:
  assumes "startMsgCount s \<le> messageCount s" and "endMsgCount s < messageCount s"
  shows "snd (loadMessages_T buf s) = s"
  using assms by (cases "buf 0 \<in> set (validTypes s)")
    (simp_all add: loadMessages_T_other loadMessages_T_after)

lemma past_window_M:
  assumes "startMsgCount s \<le> messageCount s" and "endMsgCount s < messageCount s"
  shows "snd (loadMessages_M buf s) = s"
  using assms by (cases "buf 0 \<in> set (validTypes s)")
    (simp_all add: loadMessages_M_other loadMessages_M_after)

lemma past_window_calls_O:
  "startMsgCount s \<le> messageCount s \<Longrightarrow> endMsgCount s < messageCount s \<Longrightarrow> calls_O bufs s = s"
  unfolding calls_O_def by (induction bufs) (simp_all add: past_window_O)

lemma past_window_calls_T:
  "startMsgCount s \<le> messageCount s \<Longrightarrow> endMsgCount s < messageCount s \<Longrightarrow> calls_T bufs s = s"
  unfolding calls_T_def by (induction bufs) (simp_all add: past_window_T)

lemma past_window_calls_M:
  "startMsgCount s \<le> messageCount s \<Longrightarrow> endMsgCount s < messageCount s \<Longrightarrow> calls_M bufs s = s"
  unfolding calls_M_def by (induction bufs) (simp_all add: past_window_M)


lemma full_Orders_simps:
  "validTypes full_Orders = validTypes new_Orders" "messageCount full_Orders = 1"
  "startMsgCount full_Orders = 0" "endMsgCount full_Orders = 0"
proof -
  have "in_window (setBoundaries 0 0 new_Orders)"
    by (simp add: in_window_def)
  then show "messageCount full_Orders = 1"
    using order_frame_valid [of "''AAPL    ''" "[0, 22, 227, 96]"]
    by (simp add: full_Orders_def loadMessages_O_inside)
qed (simp_all add: full_Orders_def)

lemma full_Trades_simps:
  "validTypes full_Trades = validTypes new_Trades" "messageCount full_Trades = 1"
  "startMsgCount full_Trades = 0" "endMsgCount full_Trades = 0"
proof -
  have "in_window (setBoundaries 0 0 new_Trades)"
    by (simp add: in_window_def)
  then show "messageCount full_Trades = 1"
    using trade_frame_valid by (simp add: full_Trades_def loadMessages_T_inside)
qed (simp_all add: full_Trades_def)

lemma full_Modifications_simps:
  "validTypes full_Modifications = validTypes new_Modifications"
  "messageCount full_Modifications = 1"
  "startMsgCount full_Modifications = 0" "endMsgCount full_Modifications = 0"
proof -
  have "in_window (setBoundaries 0 0 new_Modifications)"
    by (simp add: in_window_def)
  then show "messageCount full_Modifications = 1"
    using executed_frame_valid by (simp add: full_Modifications_def loadMessages_M_inside)
qed (simp_all add: full_Modifications_def)


text \<open>The window that \<^verbatim>\<open>getMessagesTemplate\<close> hands to the loader is never inverted.\<close>

lemma loader_window_ordered_aux:
  assumes "LoadToMessages a b \<in> set (fst (getMessagesTemplate capacity countMessages'
      loadToMessages' msg filename s e bufferSize quiet))"
  shows "a \<le> b"
proof (cases "e < s")
  case True
  then have "s \<noteq> 0" "e \<le> s"
    by auto
  with True assms show ?thesis
    by (auto simp add: getMessagesTemplate_def reserve_and_load_def Let_def
        split: sum.splits)
next
  case False
  then have le: "s \<le> e"
    by (simp add: not_less)
  show ?thesis
  proof (cases "e = 0")
    case True
    with le have "s = 0"
      by simp
    with True assms show ?thesis
      by (auto simp add: getMessagesTemplate_def reserve_and_load_def Let_def
          split: sum.splits option.splits prod.splits)
  next
    case nz: False
    with False le assms show ?thesis
      by (auto simp add: getMessagesTemplate_def reserve_and_load_def Let_def
          split: sum.splits)
  qed
qed

lemma loader_window_ordered:
  "LoadToMessages a b \<in> set (fst (getMessagesTemplate capacity countMessages'
      loadToMessages' msg filename s e bufferSize quiet)) \<longrightarrow> a \<le> b"
  by (rule impI) (rule loader_window_ordered_aux)

lemma early_exit_O:
  "startMsgCount s \<le> endMsgCount s \<longrightarrow>
     (buf 0 \<in> set (validTypes s) \<and> endMsgCount s < messageCount s \<longrightarrow>
        loadMessages_O buf s = (False, s) \<and> (\<forall>bufs. calls_O bufs s = s)) \<and>
     (fst (loadMessages_O buf s) \<longleftrightarrow>
        \<not> (buf 0 \<in> set (validTypes s) \<and> endMsgCount s < messageCount s))"
proof (intro impI conjI allI)
  assume inv: "startMsgCount s \<le> endMsgCount s"
  have le: "startMsgCount s \<le> messageCount s" if "endMsgCount s < messageCount s"
    using inv that by simp
  show "fst (loadMessages_O buf s) \<longleftrightarrow>
      \<not> (buf 0 \<in> set (validTypes s) \<and> endMsgCount s < messageCount s)"
    using returns_false_iff_O [of buf s] le by blast
  assume "buf 0 \<in> set (validTypes s) \<and> endMsgCount s < messageCount s"
  then have v: "buf 0 \<in> set (validTypes s)" and past: "endMsgCount s < messageCount s"
    by blast+
  show "loadMessages_O buf s = (False, s)"
    using v le [OF past] past by (rule loadMessages_O_after)
  show "calls_O bufs s = s" for bufs
    using le [OF past] past by (rule past_window_calls_O)
qed

lemma early_exit_T:
  "startMsgCount s \<le> endMsgCount s \<longrightarrow>
     (buf 0 \<in> set (validTypes s) \<and> endMsgCount s < messageCount s \<longrightarrow>
        loadMessages_T buf s = (False, s) \<and> (\<forall>bufs. calls_T bufs s = s)) \<and>
     (fst (loadMessages_T buf s) \<longleftrightarrow>
        \<not> (buf 0 \<in> set (validTypes s) \<and> endMsgCount s < messageCount s))"
proof (intro impI conjI allI)
  assume inv: "startMsgCount s \<le> endMsgCount s"
  have le: "startMsgCount s \<le> messageCount s" if "endMsgCount s < messageCount s"
    using inv that by simp
  show "fst (loadMessages_T buf s) \<longleftrightarrow>
      \<not> (buf 0 \<in> set (validTypes s) \<and> endMsgCount s < messageCount s)"
    using returns_false_iff_T [of buf s] le by blast
  assume "buf 0 \<in> set (validTypes s) \<and> endMsgCount s < messageCount s"
  then have v: "buf 0 \<in> set (validTypes s)" and past: "endMsgCount s < messageCount s"
    by blast+
  show "loadMessages_T buf s = (False, s)"
    using v le [OF past] past by (rule loadMessages_T_after)
  show "calls_T bufs s = s" for bufs
    using le [OF past] past by (rule past_window_calls_T)
qed

lemma early_exit_M:
  "startMsgCount s \<le> endMsgCount s \<longrightarrow>
     (buf 0 \<in> set (validTypes s) \<and> endMsgCount s < messageCount s \<longrightarrow>
        loadMessages_M buf s = (False, s) \<and> (\<forall>bufs. calls_M bufs s = s)) \<and>
     (fst (loadMessages_M buf s) \<longleftrightarrow>
        \<not> (buf 0 \<in> set (validTypes s) \<and> endMsgCount s < messageCount s))"
proof (intro impI conjI allI)
  assume inv: "startMsgCount s \<le> endMsgCount s"
  have le: "startMsgCount s \<le> messageCount s" if "endMsgCount s < messageCount s"
    using inv that by simp
  show "fst (loadMessages_M buf s) \<longleftrightarrow>
      \<not> (buf 0 \<in> set (validTypes s) \<and> endMsgCount s < messageCount s)"
    using returns_false_iff_M [of buf s] le by blast
  assume "buf 0 \<in> set (validTypes s) \<and> endMsgCount s < messageCount s"
  then have v: "buf 0 \<in> set (validTypes s)" and past: "endMsgCount s < messageCount s"
    by blast+
  show "loadMessages_M buf s = (False, s)"
    using v le [OF past] past by (rule loadMessages_M_after)
  show "calls_M bufs s = s" for bufs
    using le [OF past] past by (rule past_window_calls_M)
qed

text \<open>
  Claim C3. In a decode session the window is ordered: \<^verbatim>\<open>getMessagesTemplate\<close> hands
  the loader only bounds with \<open>startMsgCount \<le> endMsgCount\<close>, and \<^verbatim>\<open>loadMessages\<close>
  does not change them. For each variant with such a window, whenever
  \<open>messageCount > endMsgCount\<close> holds, a \<^verbatim>\<open>loadMessages\<close> call on a frame of an
  accepted type returns false and leaves the decoder unchanged, and so does every later
  sequence of calls: no frame is decoded for the rest of the session. In every other
  case \<^verbatim>\<open>loadMessages\<close> returns true.
\<close>

theorem early_exit_past_window:
  "(startMsgCount sO \<le> endMsgCount sO \<longrightarrow>
      (bufO 0 \<in> set (validTypes sO) \<and> endMsgCount sO < messageCount sO \<longrightarrow>
         loadMessages_O bufO sO = (False, sO) \<and> (\<forall>bufs. calls_O bufs sO = sO)) \<and>
      (fst (loadMessages_O bufO sO) \<longleftrightarrow>
         \<not> (bufO 0 \<in> set (validTypes sO) \<and> endMsgCount sO < messageCount sO))) \<and>
   (startMsgCount sT \<le> endMsgCount sT \<longrightarrow>
      (bufT 0 \<in> set (validTypes sT) \<and> endMsgCount sT < messageCount sT \<longrightarrow>
         loadMessages_T bufT sT = (False, sT) \<and> (\<forall>bufs. calls_T bufs sT = sT)) \<and>
      (fst (loadMessages_T bufT sT) \<longleftrightarrow>
         \<not> (bufT 0 \<in> set (validTypes sT) \<and> endMsgCount sT < messageCount sT))) \<and>
   (startMsgCount sM \<le> endMsgCount sM \<longrightarrow>
      (bufM 0 \<in> set (validTypes sM) \<and> endMsgCount sM < messageCount sM \<longrightarrow>
         loadMessages_M bufM sM = (False, sM) \<and> (\<forall>bufs. calls_M bufs sM = sM)) \<and>
      (fst (loadMessages_M bufM sM) \<longleftrightarrow>
         \<not> (bufM 0 \<in> set (validTypes sM) \<and> endMsgCount sM < messageCount sM))) \<and>
   (LoadToMessages a b \<in> set (fst (getMessagesTemplate capacity countMessages' loadToMessages'
        msg filename s e bufferSize quiet)) \<longrightarrow> a \<le> b) \<and>
   startMsgCount (snd (loadMessages_O bufO sO)) = startMsgCount sO \<and>
   endMsgCount (snd (loadMessages_O bufO sO)) = endMsgCount sO \<and>
   startMsgCount (snd (loadMessages_T bufT sT)) = startMsgCount sT \<and>
   endMsgCount (snd (loadMessages_T bufT sT)) = endMsgCount sT \<and>
   startMsgCount (snd (loadMessages_M bufM sM)) = startMsgCount sM \<and>
   endMsgCount (snd (loadMessages_M bufM sM)) = endMsgCount sM"
  by (intro conjI early_exit_O early_exit_T early_exit_M loader_window_ordered
      bounds_loadMessages_O bounds_loadMessages_T bounds_loadMessages_M)

theorem early_exit_past_window_witness:
  "startMsgCount full_Orders \<le> endMsgCount full_Orders \<and>
   order_frame ''AAPL    '' [0, 22, 227, 96] 0 \<in> set (validTypes full_Orders) \<and>
   endMsgCount full_Orders < messageCount full_Orders \<and>
   loadMessages_O (order_frame ''AAPL    '' [0, 22, 227, 96]) full_Orders = (False, full_Orders) \<and>
   startMsgCount full_Trades \<le> endMsgCount full_Trades \<and>
   trade_frame 0 \<in> set (validTypes full_Trades) \<and>
   endMsgCount full_Trades < messageCount full_Trades \<and>
   loadMessages_T trade_frame full_Trades = (False, full_Trades) \<and>
   startMsgCount full_Modifications \<le> endMsgCount full_Modifications \<and>
   executed_frame 0 \<in> set (validTypes full_Modifications) \<and>
   endMsgCount full_Modifications < messageCount full_Modifications \<and>
   loadMessages_M executed_frame full_Modifications = (False, full_Modifications) \<and>
   LoadToMessages 0 1 \<in> set (fst (getMessagesTemplate 1000 countMessages loadToMessages
     (OrdersMsg new_Orders) [order_frame ''AAPL    '' [0, 22, 227, 96]] 1 0 100 True)) \<and>
   (0 :: 64 word) \<le> 1"
proof -
  let ?F = "order_frame ''AAPL    '' [0, 22, 227, 96]"
  note T = early_exit_past_window [where bufO = ?F and sO = full_Orders
      and bufT = trade_frame and sT = full_Trades
      and bufM = executed_frame and sM = full_Modifications
      and a = 0 and b = 1 and capacity = 1000 and countMessages' = countMessages
      and loadToMessages' = loadToMessages and msg = "OrdersMsg new_Orders"
      and filename = "[?F]" and s = 1 and e = 0 and bufferSize = 100 and quiet = True]
  have i: "startMsgCount full_Orders \<le> endMsgCount full_Orders"
    "startMsgCount full_Trades \<le> endMsgCount full_Trades"
    "startMsgCount full_Modifications \<le> endMsgCount full_Modifications"
    by (simp_all add: full_Orders_simps full_Trades_simps full_Modifications_simps)
  have v: "?F 0 \<in> set (validTypes full_Orders)"
    "trade_frame 0 \<in> set (validTypes full_Trades)"
    "executed_frame 0 \<in> set (validTypes full_Modifications)"
    by (simp_all add: full_Orders_simps full_Trades_simps full_Modifications_simps
        order_frame_valid trade_frame_valid executed_frame_valid)
  have p: "endMsgCount full_Orders < messageCount full_Orders"
    "endMsgCount full_Trades < messageCount full_Trades"
    "endMsgCount full_Modifications < messageCount full_Modifications"
    by (simp_all add: full_Orders_simps full_Trades_simps full_Modifications_simps)
  note o = T [THEN conjunct1, THEN mp, OF i(1), THEN conjunct1, THEN mp,
      OF conjI [OF v(1) p(1)], THEN conjunct1]
  note t = T [THEN conjunct2, THEN conjunct1, THEN mp, OF i(2), THEN conjunct1, THEN mp,
      OF conjI [OF v(2) p(2)], THEN conjunct1]
  note m = T [THEN conjunct2, THEN conjunct2, THEN conjunct1, THEN mp, OF i(3),
      THEN conjunct1, THEN mp, OF conjI [OF v(3) p(3)], THEN conjunct1]
  have c: "LoadToMessages 0 1 \<in> set (fst (getMessagesTemplate 1000 countMessages loadToMessages
     (OrdersMsg new_Orders) [?F] 1 0 100 True))"
    by (simp add: getMessagesTemplate_def reserve_and_load_def reserve_def)
  note l = T [THEN conjunct2, THEN conjunct2, THEN conjunct2, THEN conjunct1, THEN mp, OF c]
  show ?thesis
    by (intro conjI i v p o t m c l)
qed

section \<open>Stock symbols\<close>

lemma filter_rtrim:
  assumes "white \<notin> set (rtrim xs)"
  shows "filter (\<lambda>c. c \<noteq> white) xs = rtrim xs"
proof -
  have "rev xs = takeWhile (\<lambda>c. c = white) (rev xs) @ dropWhile (\<lambda>c. c = white) (rev xs)"
    by simp
  then have "xs = rtrim xs @ rev (takeWhile (\<lambda>c. c = white) (rev xs))"
    unfolding rtrim_def by (metis rev_append rev_rev_ident)
  moreover have "filter (\<lambda>c. c \<noteq> white) (rev (takeWhile (\<lambda>c. c = white) (rev xs))) = []"
    by (simp add: filter_empty_conv) (meson set_takeWhileD)
  moreover have "filter (\<lambda>c. c \<noteq> white) (rtrim xs) = rtrim xs"
    using assms by (simp add: filter_id_conv) metis
  ultimately show ?thesis
    by (metis filter_append append_Nil2)
qed

text \<open>
  Claim C4, amended. For every retained Orders frame (type \<^verbatim>\<open>'A'\<close> or \<^verbatim>\<open>'F'\<close>)
  the value appended to the stock column is the 8-byte symbol field with all of its
  space bytes removed. It is the right-space-trimmed field whenever the trimmed field
  holds no space, as for \<^verbatim>\<open>"AAPL    "\<close>, which decodes to \<^verbatim>\<open>"AAPL"\<close>.
\<close>

theorem stock_is_field_without_spaces:
  assumes "buf 0 \<in> set (validTypes s)" and "in_window s"
  shows "stock_O (snd (loadMessages_O buf s)) =
           stock_O s @ [filter (\<lambda>c. c \<noteq> white) (field buf 24 8)] \<and>
         (white \<notin> set (rtrim (field buf 24 8)) \<longrightarrow>
            stock_O (snd (loadMessages_O buf s)) = stock_O s @ [rtrim (field buf 24 8)])"
  using assms
  by (simp add: loadMessages_O_inside read_string_eq_filter filter_rtrim)

lemma rtrim_AAPL: "rtrim (map chr ''AAPL    '') = map chr ''AAPL''"
  by (simp add: rtrim_def white_def chr_def)

theorem stock_is_field_without_spaces_witness:
  "order_frame ''AAPL    '' [0, 22, 227, 96] 0 \<in> set (validTypes new_Orders) \<and>
   in_window new_Orders \<and>
   field (order_frame ''AAPL    '' [0, 22, 227, 96]) 24 8 = map chr ''AAPL    '' \<and>
   white \<notin> set (rtrim (field (order_frame ''AAPL    '' [0, 22, 227, 96]) 24 8)) \<and>
   stock_O (snd (loadMessages_O (order_frame ''AAPL    '' [0, 22, 227, 96]) new_Orders)) =
     [map chr ''AAPL'']"
proof -
  let ?F = "order_frame ''AAPL    '' [0, 22, 227, 96]"
  have v: "?F 0 \<in> set (validTypes new_Orders)"
    by (rule order_frame_valid)
  have f: "field ?F 24 8 = map chr ''AAPL    ''"
    by (simp add: field_order_frame_symbol)
  have r: "rtrim (field ?F 24 8) = map chr ''AAPL''"
    by (simp only: f rtrim_AAPL)
  have w: "white \<notin> set (rtrim (field ?F 24 8))"
    unfolding r by (simp add: white_def chr_def)
  have "stock_O (snd (loadMessages_O ?F new_Orders)) = stock_O new_Orders @ [rtrim (field ?F 24 8)]"
    using stock_is_field_without_spaces [of ?F new_Orders] v in_window_new(1) w by blast
  moreover have "stock_O new_Orders = []"
    by (simp add: new_Orders_def)
  ultimately have "stock_O (snd (loadMessages_O ?F new_Orders)) = [map chr ''AAPL'']"
    by (simp only: r append_Nil)
  with v in_window_new(1) f w show ?thesis
    by blast
qed

theorem stock_right_trim_counterexample:
  "order_frame ''A B     '' [0, 22, 227, 96] 0 \<in> set (validTypes new_Orders) \<and>
   in_window new_Orders \<and>
   field (order_frame ''A B     '' [0, 22, 227, 96]) 24 8 = map chr ''A B     '' \<and>
   rtrim (field (order_frame ''A B     '' [0, 22, 227, 96]) 24 8) = map chr ''A B'' \<and>
   stock_O (snd (loadMessages_O (order_frame ''A B     '' [0, 22, 227, 96]) new_Orders)) =
     [map chr ''AB''] \<and>
   stock_O (snd (loadMessages_O (order_frame ''A B     '' [0, 22, 227, 96]) new_Orders)) \<noteq>
     [rtrim (field (order_frame ''A B     '' [0, 22, 227, 96]) 24 8)]"
proof -
  let ?F = "order_frame ''A B     '' [0, 22, 227, 96]"
  have v: "?F 0 \<in> set (validTypes new_Orders)"
    by (rule order_frame_valid)
  have f: "field ?F 24 8 = map chr ''A B     ''"
    by (simp add: field_order_frame_symbol)
  have r: "rtrim (field ?F 24 8) = map chr ''A B''"
    unfolding f by (simp add: rtrim_def white_def chr_def)
  have "read_string ?F 24 8 = map chr ''AB''"
    unfolding read_string_eq_filter f by (simp add: white_def chr_def)
  moreover have "stock_O new_Orders = []"
    by (simp add: new_Orders_def)
  ultimately have s: "stock_O (snd (loadMessages_O ?F new_Orders)) = [map chr ''AB'']"
    using v in_window_new(1) by (simp add: loadMessages_O_inside)
  have "[map chr ''AB''] \<noteq> [map chr ''A B'']"
    by simp
  then have "stock_O (snd (loadMessages_O ?F new_Orders)) \<noteq> [rtrim (field ?F 24 8)]"
    unfolding s r .
  with v in_window_new(1) f r s show ?thesis
    by blast
qed

section \<open>Executed orders\<close>

lemma columns_new_Modifications:
  "shares_M new_Modifications = []" "matchNumber_M new_Modifications = []"
  "printable_M new_Modifications = []" "price_M new_Modifications = []"
  "newOrderRef_M new_Modifications = []"
  by (simp_all add: new_Modifications_def)

text \<open>
  Claim C5. For a retained Modifications frame of type \<^verbatim>\<open>'E'\<close> the claim has the
  executed shares and the match number decoded from the frame, and the printable, price
  and new-order-reference columns filled with their sentinels: 0 or 0.0 for numbers, the
  space character or false for a flag. The code does so for the shares, the match
  number, the price and the new order reference. Into the printable column it pushes
  the character \<^verbatim>\<open>'N'\<close>, which is \<^verbatim>\<open>'N'\<close> in a column of characters and true in a
  column of booleans, while the branches \<^verbatim>\<open>'X'\<close>, \<^verbatim>\<open>'D'\<close> and \<^verbatim>\<open>'U'\<close> push
  false under the same comment. The theorem runs the code on one frame of each of these
  types.
\<close>

theorem executed_printable_is_N:
  "executed_frame 0 = chr CHR ''E'' \<and>
   executed_frame 0 \<in> set (validTypes new_Modifications) \<and> in_window new_Modifications \<and>
   shares_M (snd (loadMessages_M executed_frame new_Modifications)) = [500] \<and>
   matchNumber_M (snd (loadMessages_M executed_frame new_Modifications)) = [7] \<and>
   price_M (snd (loadMessages_M executed_frame new_Modifications)) = [0] \<and>
   newOrderRef_M (snd (loadMessages_M executed_frame new_Modifications)) = [0] \<and>
   printable_M (snd (loadMessages_M executed_frame new_Modifications)) =
     [CharValue (chr CHR ''N'')] \<and>
   flag_as_char (CharValue (chr CHR ''N'')) = chr CHR ''N'' \<and>
   chr CHR ''N'' \<noteq> chr CHR '' '' \<and> chr CHR ''N'' \<noteq> (0 :: byte) \<and>
   flag_as_bool (CharValue (chr CHR ''N'')) \<and>
   CharValue (chr CHR ''N'') \<noteq> CharValue (chr CHR '' '') \<and>
   CharValue (chr CHR ''N'') \<noteq> BoolValue False \<and>
   printable_M (snd (loadMessages_M cancel_frame new_Modifications)) = [BoolValue False] \<and>
   printable_M (snd (loadMessages_M delete_frame new_Modifications)) = [BoolValue False] \<and>
   printable_M (snd (loadMessages_M replace_frame new_Modifications)) = [BoolValue False]"
proof -
  note w = in_window_new(3)
  have e: "shares_M (snd (loadMessages_M executed_frame new_Modifications)) = [500]"
    "matchNumber_M (snd (loadMessages_M executed_frame new_Modifications)) = [7]"
    "price_M (snd (loadMessages_M executed_frame new_Modifications)) = [0]"
    "newOrderRef_M (snd (loadMessages_M executed_frame new_Modifications)) = [0]"
    "printable_M (snd (loadMessages_M executed_frame new_Modifications)) =
      [CharValue (chr CHR ''N'')]"
    by (simp_all add: row_E [of executed_frame new_Modifications, OF frame_types(5) executed_frame_valid w]
        columns_new_Modifications frame_values)
  have x: "printable_M (snd (loadMessages_M cancel_frame new_Modifications)) =
      [BoolValue False]"
    by (simp add: row_X [of cancel_frame new_Modifications, OF frame_types(7) frames_valid(4) w] columns_new_Modifications)
  have d: "printable_M (snd (loadMessages_M delete_frame new_Modifications)) =
      [BoolValue False]"
    by (simp add: row_D [of delete_frame new_Modifications, OF frame_types(8) frames_valid(5) w] columns_new_Modifications)
  have u: "printable_M (snd (loadMessages_M replace_frame new_Modifications)) =
      [BoolValue False]"
    by (simp add: row_U [of replace_frame new_Modifications, OF frame_types(9) frames_valid(6) w] columns_new_Modifications)
  have n: "flag_as_char (CharValue (chr CHR ''N'')) = chr CHR ''N''"
    "chr CHR ''N'' \<noteq> chr CHR '' ''" "chr CHR ''N'' \<noteq> (0 :: byte)"
    "flag_as_bool (CharValue (chr CHR ''N''))"
    "CharValue (chr CHR ''N'') \<noteq> CharValue (chr CHR '' '')"
    "CharValue (chr CHR ''N'') \<noteq> BoolValue False"
    by (simp_all add: chr_def)
  show ?thesis
    by (intro conjI frame_types(5) executed_frame_valid w e x d u n)
qed

section \<open>Prices\<close>

lemma unat_get4bytes_sum:
  "unat (get4bytes (offs buf k)) = (\<Sum>i<4. unat (buf (k + i)) * 256 ^ (4 - 1 - i))"
  by (simp add: unat_get4bytes offs_def lessThan_nat_numeral lessThan_Suc pred_numeral_simps)

lemma double_div_price_of_field:
  "double_div (double_of_uint (get4bytes (offs buf k))) 10000 = price_of_field buf k"
  by (simp only: double_div_def double_of_uint_def price_of_field_def unat_get4bytes_sum)

lemma round_double_examples:
  "round_double 1234 = 1234"
  "round_double (1 / 40) = 3602879701896397 / 2 ^ 57"
  "round_double 150 = 150"
  by code_simp+

lemma price_O_inside:
  "buf 0 \<in> set (validTypes s) \<Longrightarrow> in_window s \<Longrightarrow>
   price_O (snd (loadMessages_O buf s)) = price_O s @ [price_of_field buf 32]"
  by (simp add: loadMessages_O_inside double_div_price_of_field)

lemma price_T_inside:
  assumes "buf 0 \<in> set (validTypes s)" and "in_window s"
  shows "buf 0 = chr CHR ''P'' \<Longrightarrow>
           price_T (snd (loadMessages_T buf s)) = price_T s @ [price_of_field buf 32]"
    and "buf 0 = chr CHR ''Q'' \<Longrightarrow>
           price_T (snd (loadMessages_T buf s)) = price_T s @ [price_of_field buf 27]"
  using assms
  by (simp_all add: loadMessages_T_inside switch_T_def double_div_price_of_field chr_def)

lemma price_M_inside:
  assumes "buf 0 \<in> set (validTypes s)" and "in_window s"
  shows "buf 0 = chr CHR ''C'' \<Longrightarrow>
           price_M (snd (loadMessages_M buf s)) = price_M s @ [price_of_field buf 32]"
    and "buf 0 = chr CHR ''U'' \<Longrightarrow>
           price_M (snd (loadMessages_M buf s)) = price_M s @ [price_of_field buf 31]"
  using assms
  by (simp_all add: loadMessages_M_inside switch_M_def double_div_price_of_field chr_def)

text \<open>
  Claim C10. For every retained frame that carries a price (Orders; Trades of type
  \<^verbatim>\<open>'P'\<close> and \<^verbatim>\<open>'Q'\<close>; Modifications of type \<^verbatim>\<open>'C'\<close> and \<^verbatim>\<open>'U'\<close>) the value
  appended to the price column is the raw 4-byte big-endian unsigned field divided by
  10000, as a \<^verbatim>\<open>double\<close>. The raw value 12340000 gives the price 1234.0, and the
  raw value 250 gives the \<^verbatim>\<open>double\<close> written 0.025, the one nearest to 25/1000.
\<close>

theorem price_is_field_divided_by_10000:
  "(bufO 0 \<in> set (validTypes sO) \<and> in_window sO \<longrightarrow>
      price_O (snd (loadMessages_O bufO sO)) = price_O sO @ [price_of_field bufO 32]) \<and>
   (bufP 0 = chr CHR ''P'' \<and> bufP 0 \<in> set (validTypes sP) \<and> in_window sP \<longrightarrow>
      price_T (snd (loadMessages_T bufP sP)) = price_T sP @ [price_of_field bufP 32]) \<and>
   (bufQ 0 = chr CHR ''Q'' \<and> bufQ 0 \<in> set (validTypes sQ) \<and> in_window sQ \<longrightarrow>
      price_T (snd (loadMessages_T bufQ sQ)) = price_T sQ @ [price_of_field bufQ 27]) \<and>
   (bufC 0 = chr CHR ''C'' \<and> bufC 0 \<in> set (validTypes sC) \<and> in_window sC \<longrightarrow>
      price_M (snd (loadMessages_M bufC sC)) = price_M sC @ [price_of_field bufC 32]) \<and>
   (bufU 0 = chr CHR ''U'' \<and> bufU 0 \<in> set (validTypes sU) \<and> in_window sU \<longrightarrow>
      price_M (snd (loadMessages_M bufU sU)) = price_M sU @ [price_of_field bufU 31]) \<and>
   double_div (double_of_uint 12340000) 10000 = 1234 \<and>
   double_div (double_of_uint 250) 10000 = round_double (25 / 1000) \<and>
   double_div (double_of_uint 250) 10000 = 3602879701896397 / 2 ^ 57"
proof -
  have "double_div (double_of_uint 12340000) 10000 = 1234"
    by (simp add: double_div_def double_of_uint_def round_double_examples)
  moreover have "double_div (double_of_uint 250) 10000 = round_double (25 / 1000)"
    by (simp add: double_div_def double_of_uint_def)
  moreover have "double_div (double_of_uint 250) 10000 = 3602879701896397 / 2 ^ 57"
    by (simp add: double_div_def double_of_uint_def round_double_examples)
  ultimately show ?thesis
    using price_O_inside [of bufO sO] price_T_inside(1) [of bufP sP]
      price_T_inside(2) [of bufQ sQ] price_M_inside(1) [of bufC sC]
      price_M_inside(2) [of bufU sU]
    by blast
qed

lemma price_of_field_examples:
  "price_of_field (order_frame ''AAPL    '' [0, 188, 75, 32]) 32 = 1234"
  "price_of_field (order_frame ''AAPL    '' [0, 0, 0, 250]) 32 = round_double (25 / 1000)"
  "price_of_field trade_frame 32 = 150"
  "price_of_field cross_frame 27 = 150"
  "price_of_field executed_price_frame 32 = 150"
  "price_of_field replace_frame 31 = 150"
  by (simp_all add: price_of_field_def order_frame_def trade_frame_def cross_frame_def
      executed_price_frame_def replace_frame_def bytes_at_def
      lessThan_nat_numeral lessThan_Suc pred_numeral_simps round_double_examples)

lemma price_new:
  "price_O new_Orders = []" "price_T new_Trades = []" "price_M new_Modifications = []"
  by (simp_all add: new_Orders_def new_Trades_def new_Modifications_def)

theorem price_is_field_divided_by_10000_witness:
  "order_frame ''AAPL    '' [0, 188, 75, 32] 0 \<in> set (validTypes new_Orders) \<and>
   in_window new_Orders \<and>
   price_O (snd (loadMessages_O (order_frame ''AAPL    '' [0, 188, 75, 32]) new_Orders)) = [1234] \<and>
   trade_frame 0 = chr CHR ''P'' \<and> trade_frame 0 \<in> set (validTypes new_Trades) \<and>
   in_window new_Trades \<and>
   price_T (snd (loadMessages_T trade_frame new_Trades)) = [150] \<and>
   cross_frame 0 = chr CHR ''Q'' \<and> cross_frame 0 \<in> set (validTypes new_Trades) \<and>
   price_T (snd (loadMessages_T cross_frame new_Trades)) = [150] \<and>
   executed_price_frame 0 = chr CHR ''C'' \<and>
   executed_price_frame 0 \<in> set (validTypes new_Modifications) \<and>
   in_window new_Modifications \<and>
   price_M (snd (loadMessages_M executed_price_frame new_Modifications)) = [150] \<and>
   replace_frame 0 = chr CHR ''U'' \<and> replace_frame 0 \<in> set (validTypes new_Modifications) \<and>
   price_M (snd (loadMessages_M replace_frame new_Modifications)) = [150]"
  using price_is_field_divided_by_10000 [where bufO = "order_frame ''AAPL    '' [0, 188, 75, 32]"
      and sO = new_Orders and bufP = trade_frame and sP = new_Trades
      and bufQ = cross_frame and sQ = new_Trades
      and bufC = executed_price_frame and sC = new_Modifications
      and bufU = replace_frame and sU = new_Modifications]
    order_frame_valid [of "''AAPL    ''" "[0, 188, 75, 32]"]
    trade_frame_valid frames_valid frame_types in_window_new
  unfolding price_of_field_examples price_new append_Nil
  by blast

section \<open>The loader on a window that starts at 0\<close>

lemma loadFrames_Orders:
  "loadFrames (buf # rest) (OrdersMsg s) =
     (if fst (loadMessages_O buf s) then loadFrames rest (OrdersMsg (snd (loadMessages_O buf s)))
      else OrdersMsg (snd (loadMessages_O buf s)))"
  by (cases "loadMessages_O buf s") simp

lemma calls_O_Cons: "calls_O (buf # bufs) s = calls_O bufs (snd (loadMessages_O buf s))"
  by (simp add: calls_O_def)

lemma first_messages_Cons:
  "first_messages n valid (buf # file) =
     (if buf 0 \<in> set valid
      then (case n of 0 \<Rightarrow> [] | Suc m \<Rightarrow> buf # first_messages m valid file)
      else first_messages n valid file)"
  by (simp add: first_messages_def split: nat.split)

lemma unat_Suc_word:
  fixes c :: "64 word"
  assumes "unat c + 1 < 2 ^ 64"
  shows "unat (c + 1) = unat c + 1"
  using assms by (simp add: unat_word_ariths)

lemma loadFrames_window_O:
  assumes "startMsgCount s = 0" and "unat (messageCount s) + length frames < 2 ^ 64"
  shows "loadFrames frames (OrdersMsg s) =
           OrdersMsg (calls_O (first_messages (unat (endMsgCount s) + 1 - unat (messageCount s))
             (validTypes s) frames) s) \<and>
         type_O (calls_O (first_messages (unat (endMsgCount s) + 1 - unat (messageCount s))
             (validTypes s) frames) s) =
           type_O s @ map (\<lambda>buf. buf 0)
             (first_messages (unat (endMsgCount s) + 1 - unat (messageCount s))
               (validTypes s) frames)"
  using assms
proof (induction frames arbitrary: s)
  case Nil
  then show ?case
    by (simp add: first_messages_def calls_O_def)
next
  case (Cons buf frames)
  show ?case
  proof (cases "buf 0 \<in> set (validTypes s)")
    case False
    have "unat (messageCount s) + length frames < 2 ^ 64"
      using Cons.prems(2) by simp
    from Cons.IH [OF Cons.prems(1) this] False show ?thesis
      by (simp add: loadFrames_Orders loadMessages_O_other first_messages_Cons
          del: loadFrames.simps(2))
  next
    case True
    show ?thesis
    proof (cases "messageCount s \<le> endMsgCount s")
      case inside: True
      then have w: "in_window s"
        by (simp add: in_window_def Cons.prems(1))
      let ?s' = "snd (loadMessages_O buf s)"
      have c': "messageCount ?s' = messageCount s + 1"
        using True w by (simp add: loadMessages_O_inside)
      have u: "unat (messageCount ?s') = unat (messageCount s) + 1"
        unfolding c' using Cons.prems(2) by (intro unat_Suc_word) simp
      have t': "type_O ?s' = type_O s @ [buf 0]"
        using True w by (simp add: loadMessages_O_inside)
      have f: "fst (loadMessages_O buf s)"
        using True w by (simp add: loadMessages_O_inside)
      have le: "unat (messageCount s) \<le> unat (endMsgCount s)"
        using inside by (simp add: word_le_nat_alt)
      then have n: "unat (endMsgCount s) + 1 - unat (messageCount s) =
          Suc (unat (endMsgCount ?s') + 1 - unat (messageCount ?s'))"
        by (simp add: u)
      have "startMsgCount ?s' = 0" "unat (messageCount ?s') + length frames < 2 ^ 64"
        using Cons.prems by (simp_all add: u)
      from Cons.IH [OF this] show ?thesis
        unfolding n
        by (simp add: loadFrames_Orders f first_messages_Cons True calls_O_Cons t'
            del: loadFrames.simps(2))
    next
      case False
      then have past: "endMsgCount s < messageCount s"
        by (simp add: not_le)
      then have "unat (endMsgCount s) + 1 - unat (messageCount s) = 0"
        by (simp add: word_less_nat_alt)
      moreover have "loadMessages_O buf s = (False, s)"
        using True past by (simp add: loadMessages_O_after Cons.prems(1))
      ultimately show ?thesis
        by (simp add: loadFrames_Orders first_messages_Cons True calls_O_def
            del: loadFrames.simps(2))
    qed
  qed
qed

lemma loadFrames_Trades:
  "loadFrames (buf # rest) (TradesMsg s) =
     (if fst (loadMessages_T buf s) then loadFrames rest (TradesMsg (snd (loadMessages_T buf s)))
      else TradesMsg (snd (loadMessages_T buf s)))"
  by (cases "loadMessages_T buf s") simp

lemma calls_T_Cons: "calls_T (buf # bufs) s = calls_T bufs (snd (loadMessages_T buf s))"
  by (simp add: calls_T_def)

lemma loadFrames_window_T:
  assumes "startMsgCount s = 0" and "unat (messageCount s) + length frames < 2 ^ 64"
  shows "loadFrames frames (TradesMsg s) =
           TradesMsg (calls_T (first_messages (unat (endMsgCount s) + 1 - unat (messageCount s))
             (validTypes s) frames) s) \<and>
         type_T (calls_T (first_messages (unat (endMsgCount s) + 1 - unat (messageCount s))
             (validTypes s) frames) s) =
           type_T s @ map (\<lambda>buf. buf 0)
             (first_messages (unat (endMsgCount s) + 1 - unat (messageCount s))
               (validTypes s) frames)"
  using assms
proof (induction frames arbitrary: s)
  case Nil
  then show ?case
    by (simp add: first_messages_def calls_T_def)
next
  case (Cons buf frames)
  show ?case
  proof (cases "buf 0 \<in> set (validTypes s)")
    case False
    have "unat (messageCount s) + length frames < 2 ^ 64"
      using Cons.prems(2) by simp
    from Cons.IH [OF Cons.prems(1) this] False show ?thesis
      by (simp add: loadFrames_Trades loadMessages_T_other first_messages_Cons
          del: loadFrames.simps(2))
  next
    case True
    show ?thesis
    proof (cases "messageCount s \<le> endMsgCount s")
      case inside: True
      then have w: "in_window s"
        by (simp add: in_window_def Cons.prems(1))
      let ?s' = "snd (loadMessages_T buf s)"
      have c': "messageCount ?s' = messageCount s + 1"
        using True w by (simp add: loadMessages_T_inside switch_T_def)
      have u: "unat (messageCount ?s') = unat (messageCount s) + 1"
        unfolding c' using Cons.prems(2) by (intro unat_Suc_word) simp
      have t': "type_T ?s' = type_T s @ [buf 0]"
        using True w by (simp add: loadMessages_T_inside switch_T_def)
      have f: "fst (loadMessages_T buf s)"
        using True w by (simp add: loadMessages_T_inside switch_T_def)
      have le: "unat (messageCount s) \<le> unat (endMsgCount s)"
        using inside by (simp add: word_le_nat_alt)
      then have n: "unat (endMsgCount s) + 1 - unat (messageCount s) =
          Suc (unat (endMsgCount ?s') + 1 - unat (messageCount ?s'))"
        by (simp add: u)
      have "startMsgCount ?s' = 0" "unat (messageCount ?s') + length frames < 2 ^ 64"
        using Cons.prems by (simp_all add: u)
      from Cons.IH [OF this] show ?thesis
        unfolding n
        by (simp add: loadFrames_Trades f first_messages_Cons True calls_T_Cons t'
            del: loadFrames.simps(2))
    next
      case False
      then have past: "endMsgCount s < messageCount s"
        by (simp add: not_le)
      then have "unat (endMsgCount s) + 1 - unat (messageCount s) = 0"
        by (simp add: word_less_nat_alt)
      moreover have "loadMessages_T buf s = (False, s)"
        using True past by (simp add: loadMessages_T_after Cons.prems(1))
      ultimately show ?thesis
        by (simp add: loadFrames_Trades first_messages_Cons True calls_T_def
            del: loadFrames.simps(2))
    qed
  qed
qed

lemma loadFrames_Modifications:
  "loadFrames (buf # rest) (ModificationsMsg s) =
     (if fst (loadMessages_M buf s) then loadFrames rest (ModificationsMsg (snd (loadMessages_M buf s)))
      else ModificationsMsg (snd (loadMessages_M buf s)))"
  by (cases "loadMessages_M buf s") simp

lemma calls_M_Cons: "calls_M (buf # bufs) s = calls_M bufs (snd (loadMessages_M buf s))"
  by (simp add: calls_M_def)

lemma loadFrames_window_M:
  assumes "startMsgCount s = 0" and "unat (messageCount s) + length frames < 2 ^ 64"
  shows "loadFrames frames (ModificationsMsg s) =
           ModificationsMsg (calls_M (first_messages (unat (endMsgCount s) + 1 - unat (messageCount s))
             (validTypes s) frames) s) \<and>
         type_M (calls_M (first_messages (unat (endMsgCount s) + 1 - unat (messageCount s))
             (validTypes s) frames) s) =
           type_M s @ map (\<lambda>buf. buf 0)
             (first_messages (unat (endMsgCount s) + 1 - unat (messageCount s))
               (validTypes s) frames)"
  using assms
proof (induction frames arbitrary: s)
  case Nil
  then show ?case
    by (simp add: first_messages_def calls_M_def)
next
  case (Cons buf frames)
  show ?case
  proof (cases "buf 0 \<in> set (validTypes s)")
    case False
    have "unat (messageCount s) + length frames < 2 ^ 64"
      using Cons.prems(2) by simp
    from Cons.IH [OF Cons.prems(1) this] False show ?thesis
      by (simp add: loadFrames_Modifications loadMessages_M_other first_messages_Cons
          del: loadFrames.simps(2))
  next
    case True
    show ?thesis
    proof (cases "messageCount s \<le> endMsgCount s")
      case inside: True
      then have w: "in_window s"
        by (simp add: in_window_def Cons.prems(1))
      let ?s' = "snd (loadMessages_M buf s)"
      have c': "messageCount ?s' = messageCount s + 1"
        using True w by (simp add: loadMessages_M_inside switch_M_def)
      have u: "unat (messageCount ?s') = unat (messageCount s) + 1"
        unfolding c' using Cons.prems(2) by (intro unat_Suc_word) simp
      have t': "type_M ?s' = type_M s @ [buf 0]"
        using True w by (simp add: loadMessages_M_inside switch_M_def)
      have f: "fst (loadMessages_M buf s)"
        using True w by (simp add: loadMessages_M_inside switch_M_def)
      have le: "unat (messageCount s) \<le> unat (endMsgCount s)"
        using inside by (simp add: word_le_nat_alt)
      then have n: "unat (endMsgCount s) + 1 - unat (messageCount s) =
          Suc (unat (endMsgCount ?s') + 1 - unat (messageCount ?s'))"
        by (simp add: u)
      have "startMsgCount ?s' = 0" "unat (messageCount ?s') + length frames < 2 ^ 64"
        using Cons.prems by (simp_all add: u)
      from Cons.IH [OF this] show ?thesis
        unfolding n
        by (simp add: loadFrames_Modifications f first_messages_Cons True calls_M_Cons t'
            del: loadFrames.simps(2))
    next
      case False
      then have past: "endMsgCount s < messageCount s"
        by (simp add: not_le)
      then have "unat (endMsgCount s) + 1 - unat (messageCount s) = 0"
        by (simp add: word_less_nat_alt)
      moreover have "loadMessages_M buf s = (False, s)"
        using True past by (simp add: loadMessages_M_after Cons.prems(1))
      ultimately show ?thesis
        by (simp add: loadFrames_Modifications first_messages_Cons True calls_M_def
            del: loadFrames.simps(2))
    qed
  qed
qed

section \<open>The orchestrator\<close>

text \<open>
  Claim C6. For every file and every pair of window bounds with \<open>hi > lo\<close>, a decode
  session started with \<open>startMsgCount = hi\<close> and \<open>endMsgCount = lo\<close> yields the same
  result (the same calls and the same outcome) as one started with
  \<open>startMsgCount = lo\<close> and \<open>endMsgCount = hi\<close>, whatever the counting pass and the
  loader compute.
\<close>

theorem swapped_window_same_result:
  assumes "lo < hi"
  shows "getMessagesTemplate capacity countMessages' loadToMessages' msg filename hi lo
           bufferSize quiet =
         getMessagesTemplate capacity countMessages' loadToMessages' msg filename lo hi
           bufferSize quiet"
proof -
  from assms have "\<not> hi < lo"
    by simp
  with assms show ?thesis
    by (simp add: getMessagesTemplate_def)
qed

theorem swapped_window_same_result_witness:
  "(0 :: 64 word) < 1 \<and>
   getMessagesTemplate 1000 countMessages loadToMessages (OrdersMsg new_Orders)
     [order_frame ''AAPL    '' [0, 22, 227, 96], order_frame ''MSFT    '' [0, 22, 227, 96]]
     1 0 100 True =
   getMessagesTemplate 1000 countMessages loadToMessages (OrdersMsg new_Orders)
     [order_frame ''AAPL    '' [0, 22, 227, 96], order_frame ''MSFT    '' [0, 22, 227, 96]]
     0 1 100 True"
proof -
  have h: "(0 :: 64 word) < 1"
    by simp
  from h swapped_window_same_result [OF h, of 1000 countMessages loadToMessages
      "OrdersMsg new_Orders"
      "[order_frame ''AAPL    '' [0, 22, 227, 96], order_frame ''MSFT    '' [0, 22, 227, 96]]"
      100 True]
  show ?thesis
    by (rule conjI)
qed

lemma start_without_end_reserved:
  "0 < s \<and> unat (s + 1) < 2 ^ 63 \<and> unat (s + 1) \<le> capacity \<longrightarrow>
     getMessagesTemplate capacity countMessages' loadToMessages' msg filename s 0 bufferSize
       quiet =
       ([Reserve (s + 1), LoadToMessages 0 s],
        Table (loadToMessages' filename msg 0 s bufferSize quiet))"
  by (simp add: getMessagesTemplate_def reserve_and_load_def reserve_def Let_def)

lemma start_without_end_failed:
  "0 < s \<and> \<not> (unat (s + 1) < 2 ^ 63 \<and> unat (s + 1) \<le> capacity) \<longrightarrow>
     getMessagesTemplate capacity countMessages' loadToMessages' msg filename s 0 bufferSize
       quiet = ([Reserve (s + 1)], Failed AllocationFailure)"
  by (auto simp add: getMessagesTemplate_def reserve_and_load_def reserve_def Let_def)

lemma counted_iff_both_zero:
  "CountMessages \<in> set (fst (getMessagesTemplate capacity countMessages' loadToMessages' msg
      filename a b bufferSize quiet)) \<longleftrightarrow> a = 0 \<and> b = 0"
proof (cases "b < a")
  case True
  then have "a \<noteq> 0"
    by auto
  with True show ?thesis
    by (simp add: getMessagesTemplate_def reserve_and_load_def Let_def split: sum.split)
next
  case False
  then have "b = 0 \<longleftrightarrow> a = 0 \<and> b = 0"
    by (auto simp add: not_less)
  with False show ?thesis
    by (simp add: getMessagesTemplate_def reserve_and_load_def Let_def
        split: option.split sum.split prod.split)
qed

lemma loader_first_messages_O:
  "length frames < 2 ^ 64 \<longrightarrow>
     loadToMessages frames (OrdersMsg new_Orders) 0 s bufferSize quiet =
       OrdersMsg (calls_O (first_messages (unat s + 1) (validTypes new_Orders) frames)
         (setBoundaries 0 s new_Orders)) \<and>
     type_O (calls_O (first_messages (unat s + 1) (validTypes new_Orders) frames)
         (setBoundaries 0 s new_Orders)) =
       map (\<lambda>buf. buf 0) (first_messages (unat s + 1) (validTypes new_Orders) frames)"
proof
  assume "length frames < 2 ^ 64"
  then have "unat (messageCount (setBoundaries 0 s new_Orders)) + length frames < 2 ^ 64"
    by simp
  from loadFrames_window_O [OF _ this] show
    "loadToMessages frames (OrdersMsg new_Orders) 0 s bufferSize quiet =
       OrdersMsg (calls_O (first_messages (unat s + 1) (validTypes new_Orders) frames)
         (setBoundaries 0 s new_Orders)) \<and>
     type_O (calls_O (first_messages (unat s + 1) (validTypes new_Orders) frames)
         (setBoundaries 0 s new_Orders)) =
       map (\<lambda>buf. buf 0) (first_messages (unat s + 1) (validTypes new_Orders) frames)"
    by (simp add: loadToMessages_def) (simp add: setBoundaries_def new_Orders_def)
qed

lemma loader_first_messages_T:
  "length frames < 2 ^ 64 \<longrightarrow>
     loadToMessages frames (TradesMsg new_Trades) 0 s bufferSize quiet =
       TradesMsg (calls_T (first_messages (unat s + 1) (validTypes new_Trades) frames)
         (setBoundaries 0 s new_Trades)) \<and>
     type_T (calls_T (first_messages (unat s + 1) (validTypes new_Trades) frames)
         (setBoundaries 0 s new_Trades)) =
       map (\<lambda>buf. buf 0) (first_messages (unat s + 1) (validTypes new_Trades) frames)"
proof
  assume "length frames < 2 ^ 64"
  then have "unat (messageCount (setBoundaries 0 s new_Trades)) + length frames < 2 ^ 64"
    by simp
  from loadFrames_window_T [OF _ this] show
    "loadToMessages frames (TradesMsg new_Trades) 0 s bufferSize quiet =
       TradesMsg (calls_T (first_messages (unat s + 1) (validTypes new_Trades) frames)
         (setBoundaries 0 s new_Trades)) \<and>
     type_T (calls_T (first_messages (unat s + 1) (validTypes new_Trades) frames)
         (setBoundaries 0 s new_Trades)) =
       map (\<lambda>buf. buf 0) (first_messages (unat s + 1) (validTypes new_Trades) frames)"
    by (simp add: loadToMessages_def) (simp add: setBoundaries_def new_Trades_def)
qed

lemma loader_first_messages_M:
  "length frames < 2 ^ 64 \<longrightarrow>
     loadToMessages frames (ModificationsMsg new_Modifications) 0 s bufferSize quiet =
       ModificationsMsg (calls_M (first_messages (unat s + 1) (validTypes new_Modifications) frames)
         (setBoundaries 0 s new_Modifications)) \<and>
     type_M (calls_M (first_messages (unat s + 1) (validTypes new_Modifications) frames)
         (setBoundaries 0 s new_Modifications)) =
       map (\<lambda>buf. buf 0) (first_messages (unat s + 1) (validTypes new_Modifications) frames)"
proof
  assume "length frames < 2 ^ 64"
  then have "unat (messageCount (setBoundaries 0 s new_Modifications)) + length frames < 2 ^ 64"
    by simp
  from loadFrames_window_M [OF _ this] show
    "loadToMessages frames (ModificationsMsg new_Modifications) 0 s bufferSize quiet =
       ModificationsMsg (calls_M (first_messages (unat s + 1) (validTypes new_Modifications) frames)
         (setBoundaries 0 s new_Modifications)) \<and>
     type_M (calls_M (first_messages (unat s + 1) (validTypes new_Modifications) frames)
         (setBoundaries 0 s new_Modifications)) =
       map (\<lambda>buf. buf 0) (first_messages (unat s + 1) (validTypes new_Modifications) frames)"
    by (simp add: loadToMessages_def) (simp add: setBoundaries_def new_Modifications_def)
qed

text \<open>
  Claim C7, amended. A decode session started with \<open>startMsgCount = s > 0\<close> and
  \<open>endMsgCount = 0\<close> swaps the bounds and so asks for the window \<open>[0, s]\<close>. It first
  reserves \<open>s + 1\<close> rows. When that reservation succeeds (\<open>s + 1\<close> is below
  \<open>2 ^ 63\<close> and within the memory at hand) the session is exactly: reserve \<open>s + 1\<close>
  rows, then load the window \<open>[0, s]\<close>; the counting pass does not run. When the
  reservation fails (\<open>s + 1 \<ge> 2 ^ 63\<close>, where \<open>std::vector::reserve\<close> throws
  \<open>std::length_error\<close>, or memory is short) the session ends with that failure, the
  loader is never called and no table is produced. The counting pass runs exactly when
  both bounds are 0 after the swap, that is, when both arguments are 0. For the loader
  as the specification describes it, loading the window \<open>[0, s]\<close> into a fresh decoder
  applies the decoder to the first \<open>s + 1\<close> frames of the file whose type it recognizes,
  and the type column lists exactly those frames.
\<close>

theorem start_without_end:
  "(0 < s \<and> unat (s + 1) < 2 ^ 63 \<and> unat (s + 1) \<le> capacity \<longrightarrow>
      getMessagesTemplate capacity countMessages' loadToMessages' msg filename s 0 bufferSize
        quiet =
        ([Reserve (s + 1), LoadToMessages 0 s],
         Table (loadToMessages' filename msg 0 s bufferSize quiet))) \<and>
   (0 < s \<and> \<not> (unat (s + 1) < 2 ^ 63 \<and> unat (s + 1) \<le> capacity) \<longrightarrow>
      getMessagesTemplate capacity countMessages' loadToMessages' msg filename s 0 bufferSize
        quiet = ([Reserve (s + 1)], Failed AllocationFailure)) \<and>
   (CountMessages \<in> set (fst (getMessagesTemplate capacity countMessages' loadToMessages' msg
      filename a b bufferSize quiet)) \<longleftrightarrow> a = 0 \<and> b = 0) \<and>
   (length framesO < 2 ^ 64 \<longrightarrow>
      loadToMessages framesO (OrdersMsg new_Orders) 0 s bufferSize quiet =
        OrdersMsg (calls_O (first_messages (unat s + 1) (validTypes new_Orders) framesO)
          (setBoundaries 0 s new_Orders)) \<and>
      type_O (calls_O (first_messages (unat s + 1) (validTypes new_Orders) framesO)
          (setBoundaries 0 s new_Orders)) =
        map (\<lambda>buf. buf 0) (first_messages (unat s + 1) (validTypes new_Orders) framesO)) \<and>
   (length framesT < 2 ^ 64 \<longrightarrow>
      loadToMessages framesT (TradesMsg new_Trades) 0 s bufferSize quiet =
        TradesMsg (calls_T (first_messages (unat s + 1) (validTypes new_Trades) framesT)
          (setBoundaries 0 s new_Trades)) \<and>
      type_T (calls_T (first_messages (unat s + 1) (validTypes new_Trades) framesT)
          (setBoundaries 0 s new_Trades)) =
        map (\<lambda>buf. buf 0) (first_messages (unat s + 1) (validTypes new_Trades) framesT)) \<and>
   (length framesM < 2 ^ 64 \<longrightarrow>
      loadToMessages framesM (ModificationsMsg new_Modifications) 0 s bufferSize quiet =
        ModificationsMsg (calls_M (first_messages (unat s + 1) (validTypes new_Modifications) framesM)
          (setBoundaries 0 s new_Modifications)) \<and>
      type_M (calls_M (first_messages (unat s + 1) (validTypes new_Modifications) framesM)
          (setBoundaries 0 s new_Modifications)) =
        map (\<lambda>buf. buf 0) (first_messages (unat s + 1) (validTypes new_Modifications) framesM))"
  by (intro conjI start_without_end_reserved start_without_end_failed counted_iff_both_zero
      loader_first_messages_O loader_first_messages_T loader_first_messages_M)

lemma stock_inside_O:
  "buf 0 \<in> set (validTypes s) \<Longrightarrow> in_window s \<Longrightarrow>
   stock_O (snd (loadMessages_O buf s)) = stock_O s @ [read_string buf 24 8]"
  by (simp add: loadMessages_O_inside)

lemma messageCount_inside_O:
  "buf 0 \<in> set (validTypes s) \<Longrightarrow> in_window s \<Longrightarrow>
   messageCount (snd (loadMessages_O buf s)) = messageCount s + 1"
  by (simp add: loadMessages_O_inside)

lemma first_two_of_three:
  "a 0 \<in> set valid \<Longrightarrow> b 0 \<in> set valid \<Longrightarrow> first_messages (Suc (Suc 0)) valid [a, b, c] = [a, b]"
  by (simp add: first_messages_def)

lemma stock_first_two_orders:
  "stock_O (calls_O
     [order_frame ''AAPL    '' [0, 22, 227, 96], order_frame ''MSFT    '' [0, 22, 227, 96]]
     (setBoundaries 0 1 new_Orders)) = [map chr ''AAPL'', map chr ''MSFT'']"
proof -
  let ?A = "order_frame ''AAPL    '' [0, 22, 227, 96]"
  let ?M = "order_frame ''MSFT    '' [0, 22, 227, 96]"
  define s0 where "s0 = setBoundaries 0 1 new_Orders"
  define s1 where "s1 = snd (loadMessages_O ?A s0)"
  have v0: "validTypes s0 = validTypes new_Orders" and b0: "startMsgCount s0 = 0" "endMsgCount s0 = 1"
    and c0: "messageCount s0 = 0" and k0: "stock_O s0 = []"
    by (simp_all add: s0_def) (simp add: setBoundaries_def new_Orders_def)
  have w0: "in_window s0"
    by (simp add: in_window_def b0 c0)
  have a0: "?A 0 \<in> set (validTypes s0)"
    by (simp add: v0 order_frame_valid)
  have v1: "validTypes s1 = validTypes new_Orders" and b1: "startMsgCount s1 = 0" "endMsgCount s1 = 1"
    by (simp_all add: s1_def v0 b0)
  have c1: "messageCount s1 = 1"
    unfolding s1_def using a0 w0 by (simp add: messageCount_inside_O c0)
  have k1: "stock_O s1 = [map chr ''AAPL'']"
    unfolding s1_def using a0 w0 by (simp add: stock_inside_O k0 read_string_order_frame)
  have w1: "in_window s1"
    by (simp add: in_window_def b1 c1)
  have a1: "?M 0 \<in> set (validTypes s1)"
    by (simp add: v1 order_frame_valid)
  have "stock_O (snd (loadMessages_O ?M s1)) = [map chr ''AAPL'', map chr ''MSFT'']"
    using a1 w1 by (simp add: stock_inside_O k1 read_string_order_frame)
  then show ?thesis
    by (simp add: calls_O_def s1_def s0_def)
qed

theorem start_without_end_witness:
  "(0 :: 64 word) < 1 \<and> unat ((1 :: 64 word) + 1) < 2 ^ 63 \<and>
   unat ((1 :: 64 word) + 1) \<le> (1000 :: nat) \<and>
   getMessagesTemplate 1000 countMessages loadToMessages (OrdersMsg new_Orders)
     [order_frame ''AAPL    '' [0, 22, 227, 96], order_frame ''MSFT    '' [0, 22, 227, 96],
      order_frame ''IBM     '' [0, 22, 227, 96]] 1 0 100 True =
     ([Reserve 2, LoadToMessages 0 1],
      Table (OrdersMsg (calls_O
        [order_frame ''AAPL    '' [0, 22, 227, 96], order_frame ''MSFT    '' [0, 22, 227, 96]]
        (setBoundaries 0 1 new_Orders)))) \<and>
   type_O (calls_O
        [order_frame ''AAPL    '' [0, 22, 227, 96], order_frame ''MSFT    '' [0, 22, 227, 96]]
        (setBoundaries 0 1 new_Orders)) = [chr CHR ''A'', chr CHR ''A''] \<and>
   stock_O (calls_O
        [order_frame ''AAPL    '' [0, 22, 227, 96], order_frame ''MSFT    '' [0, 22, 227, 96]]
        (setBoundaries 0 1 new_Orders)) = [map chr ''AAPL'', map chr ''MSFT''] \<and>
   (0 :: 64 word) < 9223372036854775813 \<and>
   \<not> (unat ((9223372036854775813 :: 64 word) + 1) < 2 ^ 63 \<and>
      unat ((9223372036854775813 :: 64 word) + 1) \<le> (2 :: nat) ^ 64) \<and>
   getMessagesTemplate (2 ^ 64) countMessages loadToMessages (OrdersMsg new_Orders)
     [order_frame ''AAPL    '' [0, 22, 227, 96]] 9223372036854775813 0 100 True =
     ([Reserve 9223372036854775814], Failed AllocationFailure) \<and>
   CountMessages \<in> set (fst (getMessagesTemplate 1000 countMessages loadToMessages
     (OrdersMsg new_Orders) [order_frame ''AAPL    '' [0, 22, 227, 96]] 0 0 100 True)) \<and>
   CountMessages \<notin> set (fst (getMessagesTemplate 1000 countMessages loadToMessages
     (OrdersMsg new_Orders) [order_frame ''AAPL    '' [0, 22, 227, 96]] 1 0 100 True)) \<and>
   length [trade_frame, cross_frame, broken_frame] < 2 ^ 64 \<and>
   loadToMessages [trade_frame, cross_frame, broken_frame] (TradesMsg new_Trades) 0 1 100 True =
     TradesMsg (calls_T [trade_frame, cross_frame] (setBoundaries 0 1 new_Trades)) \<and>
   type_T (calls_T [trade_frame, cross_frame] (setBoundaries 0 1 new_Trades)) =
     [chr CHR ''P'', chr CHR ''Q''] \<and>
   length [executed_frame, cancel_frame, delete_frame] < 2 ^ 64 \<and>
   loadToMessages [executed_frame, cancel_frame, delete_frame] (ModificationsMsg new_Modifications)
     0 1 100 True =
     ModificationsMsg (calls_M [executed_frame, cancel_frame]
       (setBoundaries 0 1 new_Modifications)) \<and>
   type_M (calls_M [executed_frame, cancel_frame] (setBoundaries 0 1 new_Modifications)) =
     [chr CHR ''E'', chr CHR ''X'']"
proof -
  let ?A = "order_frame ''AAPL    '' [0, 22, 227, 96]"
  let ?M = "order_frame ''MSFT    '' [0, 22, 227, 96]"
  let ?I = "order_frame ''IBM     '' [0, 22, 227, 96]"
  let ?big = "9223372036854775813 :: 64 word"
  note T = start_without_end [where s = 1 and capacity = 1000 and countMessages' = countMessages
      and loadToMessages' = loadToMessages and msg = "OrdersMsg new_Orders"
      and filename = "[?A, ?M, ?I]" and bufferSize = 100 and quiet = True
      and framesO = "[?A, ?M, ?I]" and framesT = "[trade_frame, cross_frame, broken_frame]"
      and framesM = "[executed_frame, cancel_frame, delete_frame]"]
  note F = start_without_end [where s = ?big and capacity = "2 ^ 64"
      and countMessages' = countMessages and loadToMessages' = loadToMessages
      and msg = "OrdersMsg new_Orders" and filename = "[?A]" and bufferSize = 100
      and quiet = True]
  note Z = start_without_end [where capacity = 1000 and countMessages' = countMessages
      and loadToMessages' = loadToMessages and msg = "OrdersMsg new_Orders"
      and filename = "[?A]" and bufferSize = 100 and quiet = True and a = 0 and b = 0]
  note N = start_without_end [where capacity = 1000 and countMessages' = countMessages
      and loadToMessages' = loadToMessages and msg = "OrdersMsg new_Orders"
      and filename = "[?A]" and bufferSize = 100 and quiet = True and a = 1 and b = 0]
  have h1: "(0 :: 64 word) < 1" and h2: "unat ((1 :: 64 word) + 1) < 2 ^ 63"
    and h3: "unat ((1 :: 64 word) + 1) \<le> (1000 :: nat)"
    by simp_all
  have g1: "(0 :: 64 word) < ?big"
    by simp
  have g2: "\<not> (unat (?big + 1) < 2 ^ 63 \<and> unat (?big + 1) \<le> (2 :: nat) ^ 64)"
    by simp
  have u: "unat (1 :: 64 word) + 1 = Suc (Suc 0)"
    by simp
  have fO: "first_messages (Suc (Suc 0)) (validTypes new_Orders) [?A, ?M, ?I] = [?A, ?M]"
    by (simp add: first_two_of_three order_frame_valid)
  have fT: "first_messages (Suc (Suc 0)) (validTypes new_Trades)
      [trade_frame, cross_frame, broken_frame] = [trade_frame, cross_frame]"
    by (simp add: first_two_of_three trade_frame_valid frames_valid)
  have fM: "first_messages (Suc (Suc 0)) (validTypes new_Modifications)
      [executed_frame, cancel_frame, delete_frame] = [executed_frame, cancel_frame]"
    by (simp add: first_two_of_three executed_frame_valid frames_valid)
  have lO: "length [?A, ?M, ?I] < 2 ^ 64"
    and lT: "length [trade_frame, cross_frame, broken_frame] < 2 ^ 64"
    and lM: "length [executed_frame, cancel_frame, delete_frame] < 2 ^ 64"
    by simp_all
  have c1: "getMessagesTemplate 1000 countMessages loadToMessages (OrdersMsg new_Orders)
      [?A, ?M, ?I] 1 0 100 True =
      ([Reserve 2, LoadToMessages 0 1],
       Table (loadToMessages [?A, ?M, ?I] (OrdersMsg new_Orders) 0 1 100 True))"
    using T [THEN conjunct1] h1 h2 h3 by simp
  have c2: "loadToMessages [?A, ?M, ?I] (OrdersMsg new_Orders) 0 1 100 True =
      OrdersMsg (calls_O [?A, ?M] (setBoundaries 0 1 new_Orders))"
    and c3: "type_O (calls_O [?A, ?M] (setBoundaries 0 1 new_Orders)) =
      [chr CHR ''A'', chr CHR ''A'']"
    using T [THEN conjunct2, THEN conjunct2, THEN conjunct2, THEN conjunct1, THEN mp, OF lO,
        unfolded u fO]
    by (simp_all add: frame_types)
  have c4: "loadToMessages [trade_frame, cross_frame, broken_frame] (TradesMsg new_Trades)
      0 1 100 True = TradesMsg (calls_T [trade_frame, cross_frame] (setBoundaries 0 1 new_Trades))"
    and c5: "type_T (calls_T [trade_frame, cross_frame] (setBoundaries 0 1 new_Trades)) =
      [chr CHR ''P'', chr CHR ''Q'']"
    using T [THEN conjunct2, THEN conjunct2, THEN conjunct2, THEN conjunct2, THEN conjunct1,
        THEN mp, OF lT, unfolded u fT]
    by (simp_all add: frame_types)
  have c6: "loadToMessages [executed_frame, cancel_frame, delete_frame]
      (ModificationsMsg new_Modifications) 0 1 100 True =
      ModificationsMsg (calls_M [executed_frame, cancel_frame]
        (setBoundaries 0 1 new_Modifications))"
    and c7: "type_M (calls_M [executed_frame, cancel_frame]
        (setBoundaries 0 1 new_Modifications)) = [chr CHR ''E'', chr CHR ''X'']"
    using T [THEN conjunct2, THEN conjunct2, THEN conjunct2, THEN conjunct2, THEN conjunct2,
        THEN mp, OF lM, unfolded u fM]
    by (simp_all add: frame_types)
  have c8: "getMessagesTemplate (2 ^ 64) countMessages loadToMessages (OrdersMsg new_Orders)
      [?A] ?big 0 100 True = ([Reserve 9223372036854775814], Failed AllocationFailure)"
    using F [THEN conjunct2, THEN conjunct1] g1 g2 by simp
  have c9: "CountMessages \<in> set (fst (getMessagesTemplate 1000 countMessages loadToMessages
      (OrdersMsg new_Orders) [?A] 0 0 100 True))"
    using Z [THEN conjunct2, THEN conjunct2, THEN conjunct1] by simp
  have c10: "CountMessages \<notin> set (fst (getMessagesTemplate 1000 countMessages loadToMessages
      (OrdersMsg new_Orders) [?A] 1 0 100 True))"
    using N [THEN conjunct2, THEN conjunct2, THEN conjunct1] by simp
  show ?thesis
    by (intro conjI h1 h2 h3 g1 g2 lO lT lM c1 [unfolded c2] c3 c4 c5 c6 c7 c8 c9 c10
        stock_first_two_orders)
qed

theorem allocation_failure_counterexample:
  "(0 :: 64 word) < 9223372036854775808 \<and>
   getMessagesTemplate (2 ^ 64) countMessages loadToMessages (OrdersMsg new_Orders)
     [order_frame ''AAPL    '' [0, 22, 227, 96], order_frame ''MSFT    '' [0, 22, 227, 96]]
     9223372036854775808 0 100 True =
     ([Reserve 9223372036854775809], Failed AllocationFailure) \<and>
   LoadToMessages 0 9223372036854775808 \<notin> set (fst (getMessagesTemplate (2 ^ 64) countMessages
     loadToMessages (OrdersMsg new_Orders)
     [order_frame ''AAPL    '' [0, 22, 227, 96], order_frame ''MSFT    '' [0, 22, 227, 96]]
     9223372036854775808 0 100 True))"
  by (simp add: getMessagesTemplate_def reserve_and_load_def reserve_def)

end
